theory Spec2Isabelle
  imports Main "HOL-Library.AList" "HOL-Library.Sublist" "HOL-Library.Multiset"
begin

section \<open>Values, rows and the store\<close>

text \<open>
  The sync script \<^verbatim>\<open>scripts/to_database.py\<close> reads parsed YAML records and writes
  them to a relational store through an object-relational mapper. A field value is a
  string, a number, \<^verbatim>\<open>None\<close>, a nested mapping or a list; a reference to a
  stored object is the primary key of its row, which is how the mapper compares and
  stores model instances. \<open>Key\<close> is a primary key the store generates, \<open>Stamp\<close> a
  reading of the store's logical clock (\<^verbatim>\<open>created_at\<close>, \<^verbatim>\<open>updated_at\<close>).
\<close>

datatype val =
    Str string
  | Num int
  | Null
  | Dict "(string \<times> val) list"
  | Seq "val list"
  | Key nat
  | Stamp nat

text \<open>A Python \<^verbatim>\<open>dict\<close> of keyword arguments, and a stored row: field name to value.\<close>

type_synonym item = "(string \<times> val) list"

text \<open>
  The tables. \<open>Child cls f\<close> is the table behind the list-valued field \<open>f\<close> of
  \<open>cls\<close> (\<^verbatim>\<open>person.links\<close>, \<^verbatim>\<open>org.sources\<close>, ...); memberships and posts are
  tables of their own, shared by both sides of the relation.
\<close>

datatype model =
    Person
  | Organization
  | Post
  | Membership
  | BillSponsorship
  | Jurisdiction
  | Child model string

datatype error =
    CancelTransaction
  | DoesNotExist model
  | MultipleObjectsReturned model
  | ValueError
  | KeyError string
  | AttributeError string
  | TypeError
  | AssertionError
  | NameError

record db =
  rows :: "(model \<times> item) list"
  next_key :: nat
  clock :: nat

subsection \<open>Dictionaries\<close>

definition getitem :: "item \<Rightarrow> string \<Rightarrow> error + val" where
  "getitem d k = (case map_of d k of None \<Rightarrow> Inl (KeyError k) | Some v \<Rightarrow> Inr v)"

definition dict_get :: "item \<Rightarrow> string \<Rightarrow> val \<Rightarrow> val" where
  "dict_get d k dflt = (case map_of d k of None \<Rightarrow> dflt | Some v \<Rightarrow> v)"

text \<open>Python truthiness of a value (\<^verbatim>\<open>if cd.get(type):\<close>).\<close>

fun truthy :: "val \<Rightarrow> bool" where
  "truthy (Str s) = (s \<noteq> [])"
| "truthy (Num i) = (i \<noteq> 0)"
| "truthy Null = False"
| "truthy (Dict d) = (d \<noteq> [])"
| "truthy (Seq vs) = (vs \<noteq> [])"
| "truthy (Key k) = True"
| "truthy (Stamp t) = True"

subsection \<open>Query sets\<close>

text \<open>
  \<open>agrees r kw\<close>: the row has, for every field the keyword arguments name, the value
  they give. A query set is a table and a condition on its rows; the condition may read
  other tables (a lookup across a relation), so it takes the store. Query sets are lazy:
  they are evaluated against the store at the moment they are counted, tested or deleted.
\<close>

definition agrees :: "item \<Rightarrow> item \<Rightarrow> bool" where
  "agrees r kw = list_all (\<lambda>k. map_of r k = map_of kw k) (map fst kw)"

text \<open>
  \<^verbatim>\<open>qs.exclude(**obj)\<close> drops the rows that agree with \<open>obj\<close> on every field it names;
  the mapper ignores an empty condition, so an item with no field excludes nothing.
\<close>

definition matches :: "item \<Rightarrow> item \<Rightarrow> bool" where
  "matches r obj = (obj \<noteq> [] \<and> agrees r obj)"

type_synonym queryset = "model \<times> (db \<Rightarrow> item \<Rightarrow> bool)"

definition objects :: "model \<Rightarrow> queryset" where
  "objects cls = (cls, \<lambda>d r. True)"

definition table :: "db \<Rightarrow> model \<Rightarrow> item list" where
  "table d cls = map snd (filter (\<lambda>cr. fst cr = cls) (rows d))"

definition qs_rows :: "db \<Rightarrow> queryset \<Rightarrow> item list" where
  "qs_rows d qs = filter (snd qs d) (table d (fst qs))"

definition count_qs :: "db \<Rightarrow> queryset \<Rightarrow> nat" where
  "count_qs d qs = length (qs_rows d qs)"

definition exists_qs :: "db \<Rightarrow> queryset \<Rightarrow> bool" where
  "exists_qs d qs = (qs_rows d qs \<noteq> [])"

definition filter_qs :: "queryset \<Rightarrow> item \<Rightarrow> queryset" where
  "filter_qs qs kw = (fst qs, \<lambda>d r. snd qs d r \<and> agrees r kw)"

definition exclude :: "queryset \<Rightarrow> item \<Rightarrow> queryset" where
  "exclude qs obj = (fst qs, \<lambda>d r. snd qs d r \<and> \<not> matches r obj)"

text \<open>\<^verbatim>\<open>qs.get(**kw)\<close>: exactly one row, or one of the two lookup errors.\<close>

definition get :: "db \<Rightarrow> queryset \<Rightarrow> item \<Rightarrow> error + item" where
  "get d qs kw =
     (case qs_rows d (filter_qs qs kw) of
        [] \<Rightarrow> Inl (DoesNotExist (fst qs))
      | [r] \<Rightarrow> Inr r
      | _ \<Rightarrow> Inl (MultipleObjectsReturned (fst qs)))"

definition delete :: "db \<Rightarrow> queryset \<Rightarrow> db" where
  "delete d qs =
     d\<lparr>rows := filter (\<lambda>cr. \<not> (fst cr = fst qs \<and> snd qs d (snd cr))) (rows d)\<rparr>"

subsection \<open>Writes\<close>

text \<open>
  \<^verbatim>\<open>ModelCls.objects.create(**data)\<close> inserts a row with the given fields, a primary key
  of the store's when \<open>data\<close> gives none, and both timestamps set to the clock's next
  reading. \<^verbatim>\<open>obj.save()\<close> writes every field of the object to the row with its primary
  key (inserting the row when there is none) and sets \<^verbatim>\<open>updated_at\<close> to the next
  reading. Uniqueness of primary keys and the fate of rows that reference a deleted row
  belong to the storage engine and are not modelled.
\<close>

definition create :: "db \<Rightarrow> model \<Rightarrow> item \<Rightarrow> db \<times> item" where
  "create d cls data =
     (let t = Suc (clock d);
          obj = data @ [(''id'', Key (next_key d)), (''created_at'', Stamp t),
                        (''updated_at'', Stamp t)]
      in (d\<lparr>rows := rows d @ [(cls, obj)], next_key := Suc (next_key d), clock := t\<rparr>, obj))"

definition stored_as :: "model \<Rightarrow> item \<Rightarrow> model \<times> item \<Rightarrow> bool" where
  "stored_as cls obj cr = (fst cr = cls \<and> map_of (snd cr) ''id'' = map_of obj ''id'')"

definition save :: "db \<Rightarrow> model \<Rightarrow> item \<Rightarrow> db" where
  "save d cls obj =
     (let t = Suc (clock d);
          obj' = AList.update ''updated_at'' (Stamp t) obj
      in d\<lparr>rows := (if list_ex (stored_as cls obj) (rows d)
                     then map (\<lambda>cr. if stored_as cls obj cr then (cls, obj') else cr) (rows d)
                     else rows d @ [(cls, obj')]),
            clock := t\<rparr>)"

text \<open>
  A related manager (\<^verbatim>\<open>getattr(person, fieldname)\<close>): the child table, the name of its
  foreign key to the owner, and the owner's primary key. Reading through it sees the
  owner's rows; creating through it sets the foreign key, whatever the item says.
  Timestamps of child rows are not modelled: nothing in the script reads them.
\<close>

type_synonym manager = "model \<times> string \<times> val"

definition pk :: "item \<Rightarrow> val" where
  "pk obj = (case map_of obj ''id'' of None \<Rightarrow> Null | Some v \<Rightarrow> v)"

fun fk_name :: "model \<Rightarrow> string" where
  "fk_name Person = ''person''"
| "fk_name Organization = ''organization''"
| "fk_name Post = ''post''"
| "fk_name Membership = ''membership''"
| "fk_name BillSponsorship = ''sponsorship''"
| "fk_name Jurisdiction = ''jurisdiction''"
| "fk_name (Child c f) = ''owner''"

definition related :: "model \<Rightarrow> item \<Rightarrow> string \<Rightarrow> manager" where
  "related cls obj fieldname =
     (if fieldname = ''memberships'' then Membership
      else if fieldname = ''posts'' then Post
      else Child cls fieldname,
      fk_name cls, pk obj)"

definition all_of :: "manager \<Rightarrow> queryset" where
  "all_of m = (case m of (cls, fk, owner) \<Rightarrow> (cls, \<lambda>d r. map_of r fk = Some owner))"

definition new_row :: "manager \<Rightarrow> nat \<Rightarrow> item \<Rightarrow> model \<times> item" where
  "new_row m k obj = (case m of (cls, fk, owner) \<Rightarrow> (cls, (fk, owner) # obj @ [(''id'', Key k)]))"

definition manager_create :: "db \<Rightarrow> manager \<Rightarrow> item \<Rightarrow> db" where
  "manager_create d m obj =
     d\<lparr>rows := rows d @ [new_row m (next_key d) obj], next_key := Suc (next_key d)\<rparr>"

section \<open>Reconciling a sub-collection: \<^verbatim>\<open>update_subobjects\<close>\<close>

definition update_subobjects ::
  "db \<Rightarrow> model \<Rightarrow> item \<Rightarrow> string \<Rightarrow> item list \<Rightarrow> queryset option \<Rightarrow> db \<times> bool" where
  "update_subobjects d cls person fieldname objs read_manager =
     (let manager = related cls person fieldname;
          read_manager = (case read_manager of None \<Rightarrow> all_of manager | Some q \<Rightarrow> q);
          current_count = count_qs d read_manager;
          updated = (current_count \<noteq> length objs);
          updated = (if \<not> updated then exists_qs d (foldl exclude read_manager objs)
                     else updated)
      in if updated then
           let d1 = (if current_count \<noteq> 0 then delete d read_manager else d);
               d2 = foldl (\<lambda>d obj. manager_create d manager obj) d1 objs;
               d3 = save d2 cls person
           in (d3, True)
         else (d, False))"

section \<open>Creating or updating one row: \<^verbatim>\<open>get_update_or_create\<close>\<close>

text \<open>\<^verbatim>\<open>{k: data[k] for k in lookup_keys}\<close>\<close>

fun select_keys :: "item \<Rightarrow> string list \<Rightarrow> error + item" where
  "select_keys data [] = Inr []"
| "select_keys data (k # ks) =
     (case getitem data k of
        Inl e \<Rightarrow> Inl e
      | Inr v \<Rightarrow> (case select_keys data ks of Inl e \<Rightarrow> Inl e | Inr kw \<Rightarrow> Inr ((k, v) # kw)))"

text \<open>
  The loop over \<^verbatim>\<open>data.items()\<close>: \<^verbatim>\<open>getattr\<close> raises for a field the object does not
  have, \<^verbatim>\<open>setattr\<close> overwrites a field that differs.
\<close>

fun set_fields :: "item \<Rightarrow> item \<Rightarrow> bool \<Rightarrow> error + (item \<times> bool)" where
  "set_fields obj [] updated = Inr (obj, updated)"
| "set_fields obj ((field, v) # rest) updated =
     (case map_of obj field of
        None \<Rightarrow> Inl (AttributeError field)
      | Some cur \<Rightarrow>
          if cur \<noteq> v then set_fields (AList.update field v obj) rest True
          else set_fields obj rest updated)"

definition get_update_or_create ::
  "db \<Rightarrow> model \<Rightarrow> item \<Rightarrow> string list \<Rightarrow> error + (db \<times> item \<times> bool \<times> bool)" where
  "get_update_or_create d cls data lookup_keys =
     (case select_keys data lookup_keys of
        Inl e \<Rightarrow> Inl e
      | Inr kwargs \<Rightarrow>
          (case get d (objects cls) kwargs of
             Inr obj \<Rightarrow>
               (case set_fields obj data False of
                  Inl e \<Rightarrow> Inl e
                | Inr (obj', updated) \<Rightarrow>
                    Inr (if updated then save d cls obj' else d, obj', False, updated))
           | Inl e \<Rightarrow>
               if e = DoesNotExist cls
               then (case create d cls data of (d', obj) \<Rightarrow> Inr (d', obj, True, False))
               else Inl e))"

section \<open>Reading the parsed records\<close>

text \<open>
  A list-valued field of a record is iterated and each element is used as a mapping
  (\<^verbatim>\<open>**obj\<close>, \<^verbatim>\<open>role["type"]\<close>, \<^verbatim>\<open>cd.get(...)\<close>). An empty string or mapping
  iterates like the empty list; any other value that is not a list of mappings makes
  the operation that first meets it raise, with the error given here as \<open>err\<close>.
\<close>

fun as_dict :: "error \<Rightarrow> val \<Rightarrow> error + item" where
  "as_dict err (Dict d) = Inr d"
| "as_dict err v = Inl err"

fun dicts :: "error \<Rightarrow> val list \<Rightarrow> error + item list" where
  "dicts err [] = Inr []"
| "dicts err (v # vs) =
     (case as_dict err v of
        Inl e \<Rightarrow> Inl e
      | Inr d \<Rightarrow> (case dicts err vs of Inl e \<Rightarrow> Inl e | Inr ds \<Rightarrow> Inr (d # ds)))"

fun dicts_of :: "error \<Rightarrow> val \<Rightarrow> error + item list" where
  "dicts_of err (Seq vs) = dicts err vs"
| "dicts_of err (Str s) = (if s = [] then Inr [] else Inl err)"
| "dicts_of err (Dict d) = (if d = [] then Inr [] else Inl err)"
| "dicts_of err v = Inl TypeError"

fun hashable :: "val \<Rightarrow> bool" where
  "hashable (Dict d) = False"
| "hashable (Seq vs) = False"
| "hashable v = True"

definition startswith :: "string \<Rightarrow> string \<Rightarrow> bool" where
  "startswith s p = prefix p s"

section \<open>The lookup cache: \<^verbatim>\<open>cached_lookup\<close>\<close>

text \<open>
  \<^verbatim>\<open>@lru_cache(128)\<close> around \<^verbatim>\<open>ModelCls.objects.get(**kwargs)\<close>: the cache lives in the
  process, most recently used entry first. A hit returns the remembered object without
  reading the store; a miss that finds its row remembers it and drops the least recently
  used entry beyond 128; a miss that raises remembers nothing.
\<close>

type_synonym cache = "((model \<times> item) \<times> item) list"

definition cached_lookup :: "cache \<Rightarrow> db \<Rightarrow> model \<Rightarrow> item \<Rightarrow> error + (cache \<times> item)" where
  "cached_lookup c d cls kwargs =
     (if \<not> list_all (\<lambda>kv. hashable (snd kv)) kwargs then Inl TypeError
      else case map_of c (cls, kwargs) of
        Some obj \<Rightarrow> Inr (((cls, kwargs), obj) # filter (\<lambda>e. fst e \<noteq> (cls, kwargs)) c, obj)
      | None \<Rightarrow>
          (case get d (objects cls) kwargs of
             Inl e \<Rightarrow> Inl e
           | Inr obj \<Rightarrow> Inr (take 128 (((cls, kwargs), obj) # c), obj)))"

section \<open>Loading one person: \<^verbatim>\<open>load_person\<close>\<close>

definition person_fields :: "item \<Rightarrow> error + item" where
  "person_fields data =
     (case getitem data ''id'' of
        Inl e \<Rightarrow> Inl e
      | Inr i \<Rightarrow>
     (case getitem data ''name'' of
        Inl e \<Rightarrow> Inl e
      | Inr n \<Rightarrow>
          Inr [(''id'', i),
               (''name'', n),
               (''given_name'', dict_get data ''given_name'' (Str '''')),
               (''family_name'', dict_get data ''family_name'' (Str '''')),
               (''gender'', dict_get data ''gender'' (Str '''')),
               (''biography'', dict_get data ''biography'' (Str '''')),
               (''birth_date'', dict_get data ''birth_date'' (Str '''')),
               (''death_date'', dict_get data ''death_date'' (Str '''')),
               (''image'', dict_get data ''image'' (Str '''')),
               (''extras'', dict_get data ''extras'' (Dict []))]))"

text \<open>
  \<^verbatim>\<open>update_subobjects(obj, fieldname, data.get(fieldname, []))\<close>, as both loaders call
  it for the fields they pass through unchanged.
\<close>

definition update_from :: "db \<Rightarrow> model \<Rightarrow> item \<Rightarrow> item \<Rightarrow> string \<Rightarrow> error + (db \<times> bool)" where
  "update_from d cls obj data fieldname =
     (case dicts_of TypeError (dict_get data fieldname (Seq [])) of
        Inl e \<Rightarrow> Inl e
      | Inr objs \<Rightarrow> Inr (update_subobjects d cls obj fieldname objs None))"

definition person_identifiers :: "item \<Rightarrow> error + item list" where
  "person_identifiers data =
     (case as_dict (AttributeError ''items'') (dict_get data ''ids'' (Dict [])) of
        Inl e \<Rightarrow> Inl e
      | Inr ids \<Rightarrow>
     (case dicts_of TypeError (dict_get data ''other_identifiers'' (Seq [])) of
        Inl e \<Rightarrow> Inl e
      | Inr others \<Rightarrow>
          Inr (map (\<lambda>sv. [(''scheme'', Str (fst sv)), (''identifier'', snd sv)]) ids @ others)))"

definition contact_rows :: "item \<Rightarrow> item list" where
  "contact_rows cd =
     concat (map (\<lambda>type.
        if truthy (dict_get cd type Null)
        then [[(''note'', dict_get cd ''note'' (Str '''')), (''type'', Str type),
               (''value'', dict_get cd type Null)]]
        else [])
      [''address'', ''email'', ''voice'', ''fax''])"

definition person_contact_details :: "item \<Rightarrow> error + item list" where
  "person_contact_details data =
     (case dicts_of (AttributeError ''get'') (dict_get data ''contact_details'' (Seq [])) of
        Inl e \<Rightarrow> Inl e
      | Inr cds \<Rightarrow> Inr (concat (map contact_rows cds)))"

text \<open>
  The loop over \<^verbatim>\<open>data.get("party", [])\<close>: the body for one entry, then the loop.
\<close>

definition party_membership :: "cache \<Rightarrow> db \<Rightarrow> item \<Rightarrow> error + (cache \<times> item)" where
  "party_membership c d party =
     (case getitem party ''name'' of
        Inl e \<Rightarrow> Inl e
      | Inr name \<Rightarrow>
     (case cached_lookup c d Organization [(''classification'', Str ''party''), (''name'', name)] of
        Inl e \<Rightarrow> if e = DoesNotExist Organization then Inl CancelTransaction else Inl e
      | Inr (c', org) \<Rightarrow>
          Inr (c', [(''organization'', pk org),
                    (''start_date'', dict_get party ''start_date'' (Str '''')),
                    (''end_date'', dict_get party ''end_date'' (Str ''''))])))"

fun party_memberships :: "cache \<Rightarrow> db \<Rightarrow> item list \<Rightarrow> error + (cache \<times> item list)" where
  "party_memberships c d [] = Inr (c, [])"
| "party_memberships c d (party # rest) =
     (case party_membership c d party of
        Inl e \<Rightarrow> Inl e
      | Inr (c', m) \<Rightarrow>
     (case party_memberships c' d rest of
        Inl e \<Rightarrow> Inl e
      | Inr (c'', ms) \<Rightarrow> Inr (c'', m # ms)))"

text \<open>
  The loop over \<^verbatim>\<open>data.get("roles", [])\<close>. \<open>legacy_districts\<close> is the helper of the
  repository's \<^verbatim>\<open>utils\<close> module: for a jurisdiction, the retired district labels of
  each chamber type.
\<close>

definition type_name :: "val \<Rightarrow> string" where
  "type_name v = (case v of Str t \<Rightarrow> t | _ \<Rightarrow> [])"

text \<open>
  The body of the loop for one role: the membership it appends, or nothing when the
  district is a legacy one (\<^verbatim>\<open>continue\<close>).
\<close>

definition role_membership ::
  "(val \<Rightarrow> (string \<times> val list) list) \<Rightarrow> cache \<Rightarrow> db \<Rightarrow> item \<Rightarrow>
     error + (cache \<times> item option)" where
  "role_membership legacy_districts c d role =
     (case getitem role ''type'' of
        Inl e \<Rightarrow> Inl e
      | Inr type \<Rightarrow>
     if type \<in> {Str ''upper'', Str ''lower'', Str ''legislature''} then
       (case getitem role ''jurisdiction'' of
          Inl e \<Rightarrow> Inl e
        | Inr jurisdiction \<Rightarrow>
       (case cached_lookup c d Organization
               [(''classification'', type), (''jurisdiction_id'', jurisdiction)] of
          Inl e \<Rightarrow> if e = DoesNotExist Organization then Inl CancelTransaction else Inl e
        | Inr (c', org) \<Rightarrow>
       (case getitem role ''district'' of
          Inl e \<Rightarrow> Inl e
        | Inr district \<Rightarrow>
       (case get d (all_of (related Organization org ''posts'')) [(''label'', district)] of
          Inl e \<Rightarrow>
            if e = DoesNotExist Post then
              (case map_of (legacy_districts jurisdiction) (type_name type) of
                 None \<Rightarrow> Inl (KeyError (type_name type))
               | Some lds \<Rightarrow>
                   if district \<in> set lds then Inr (c', None) else Inl CancelTransaction)
            else Inl e
        | Inr post \<Rightarrow>
            Inr (c', Some [(''organization'', pk org),
                           (''post'', pk post),
                           (''start_date'', dict_get role ''start_date'' (Str '''')),
                           (''end_date'', dict_get role ''end_date'' (Str ''''))])))))
     else Inl ValueError)"

fun role_memberships ::
  "(val \<Rightarrow> (string \<times> val list) list) \<Rightarrow> cache \<Rightarrow> db \<Rightarrow> item list \<Rightarrow>
     error + (cache \<times> item list)" where
  "role_memberships legacy_districts c d [] = Inr (c, [])"
| "role_memberships legacy_districts c d (role # rest) =
     (case role_membership legacy_districts c d role of
        Inl e \<Rightarrow> Inl e
      | Inr (c', m) \<Rightarrow>
     (case role_memberships legacy_districts c' d rest of
        Inl e \<Rightarrow> Inl e
      | Inr (c'', ms) \<Rightarrow> Inr (c'', (case m of None \<Rightarrow> ms | Some x \<Rightarrow> x # ms))))"

definition person_memberships ::
  "(val \<Rightarrow> (string \<times> val list) list) \<Rightarrow> cache \<Rightarrow> db \<Rightarrow> item \<Rightarrow>
     error + (cache \<times> item list)" where
  "person_memberships legacy_districts c d data =
     (case dicts_of TypeError (dict_get data ''party'' (Seq [])) of
        Inl e \<Rightarrow> Inl e
      | Inr parties \<Rightarrow>
     (case party_memberships c d parties of
        Inl e \<Rightarrow> Inl e
      | Inr (c1, ms1) \<Rightarrow>
     (case dicts_of TypeError (dict_get data ''roles'' (Seq [])) of
        Inl e \<Rightarrow> Inl e
      | Inr roles \<Rightarrow>
     (case role_memberships legacy_districts c1 d roles of
        Inl e \<Rightarrow> Inl e
      | Inr (c2, ms2) \<Rightarrow> Inr (c2, ms1 @ ms2)))))"

text \<open>
  A lookup across a relation: the row's foreign key \<open>fk\<close> points at the row \<open>target\<close>
  (a null key joins nothing).
\<close>

definition refers :: "item \<Rightarrow> string \<Rightarrow> item \<Rightarrow> bool" where
  "refers r fk target =
     (case map_of r fk of
        None \<Rightarrow> False
      | Some v \<Rightarrow> v \<noteq> Null \<and> map_of target ''id'' = Some v)"

text \<open>
  \<^verbatim>\<open>person.memberships.exclude(organization__classification="committee")\<close>, the read
  view of the person's memberships.
\<close>

definition non_committee :: "item \<Rightarrow> queryset" where
  "non_committee person =
     (Membership,
      \<lambda>d r. map_of r ''person'' = Some (pk person) \<and>
        \<not> list_ex (\<lambda>org. refers r ''organization'' org \<and>
                      map_of org ''classification'' = Some (Str ''committee''))
             (table d Organization))"

definition load_person ::
  "(val \<Rightarrow> (string \<times> val list) list) \<Rightarrow> cache \<Rightarrow> db \<Rightarrow> item \<Rightarrow>
     error + (cache \<times> db \<times> bool \<times> bool)" where
  "load_person legacy_districts c d data =
     (case person_fields data of
        Inl e \<Rightarrow> Inl e
      | Inr field_values \<Rightarrow>
     (case get_update_or_create d Person field_values [''id''] of
        Inl e \<Rightarrow> Inl e
      | Inr (d0, person, created, updated) \<Rightarrow>
     (case update_from d0 Person person data ''other_names'' of
        Inl e \<Rightarrow> Inl e
      | Inr (d1, u1) \<Rightarrow>
     (case update_from d1 Person person data ''links'' of
        Inl e \<Rightarrow> Inl e
      | Inr (d2, u2) \<Rightarrow>
     (case update_from d2 Person person data ''sources'' of
        Inl e \<Rightarrow> Inl e
      | Inr (d3, u3) \<Rightarrow>
     (case person_identifiers data of
        Inl e \<Rightarrow> Inl e
      | Inr identifiers \<Rightarrow>
     (case update_subobjects d3 Person person ''identifiers'' identifiers None of
        (d4, u4) \<Rightarrow>
     (case person_contact_details data of
        Inl e \<Rightarrow> Inl e
      | Inr contact_details \<Rightarrow>
     (case update_subobjects d4 Person person ''contact_details'' contact_details None of
        (d5, u5) \<Rightarrow>
     (case person_memberships legacy_districts c d5 data of
        Inl e \<Rightarrow> Inl e
      | Inr (c', memberships) \<Rightarrow>
     (case update_subobjects d5 Person person ''memberships'' memberships
             (Some (non_committee person)) of
        (d6, u6) \<Rightarrow>
          Inr (c', d6, created, updated \<or> u1 \<or> u2 \<or> u3 \<or> u4 \<or> u5 \<or> u6))))))))))))"

section \<open>Loading one organization: \<^verbatim>\<open>load_org\<close>\<close>

definition org_parent :: "db \<Rightarrow> item \<Rightarrow> error + item" where
  "org_parent d data =
     (case getitem data ''parent'' of
        Inl e \<Rightarrow> Inl e
      | Inr parent_id \<Rightarrow>
     (case parent_id of
        Str s \<Rightarrow>
          if startswith s ''ocd-organization''
          then get d (objects Organization) [(''id'', parent_id)]
          else (case getitem data ''jurisdiction'' of
                  Inl e \<Rightarrow> Inl e
                | Inr j \<Rightarrow>
                    get d (objects Organization)
                      [(''jurisdiction_id'', j), (''classification'', parent_id)])
      | _ \<Rightarrow> Inl (AttributeError ''startswith'')))"

definition org_fields :: "item \<Rightarrow> item \<Rightarrow> error + item" where
  "org_fields data parent =
     (case getitem data ''id'' of
        Inl e \<Rightarrow> Inl e
      | Inr i \<Rightarrow>
     (case getitem data ''name'' of
        Inl e \<Rightarrow> Inl e
      | Inr n \<Rightarrow>
     (case getitem data ''jurisdiction'' of
        Inl e \<Rightarrow> Inl e
      | Inr j \<Rightarrow>
     (case getitem data ''classification'' of
        Inl e \<Rightarrow> Inl e
      | Inr cl \<Rightarrow>
          Inr [(''id'', i),
               (''name'', n),
               (''jurisdiction_id'', j),
               (''classification'', cl),
               (''founding_date'', dict_get data ''founding_date'' (Str '''')),
               (''dissolution_date'', dict_get data ''dissolution_date'' (Str '''')),
               (''parent'', pk parent)]))))"

text \<open>The loop over \<^verbatim>\<open>data.get("memberships", [])\<close>.\<close>

definition member_person :: "db \<Rightarrow> item \<Rightarrow> error + val" where
  "member_person d role =
     (if truthy (dict_get role ''id'' Null)
      then (case get d (objects Person) [(''id'', dict_get role ''id'' Null)] of
              Inl e \<Rightarrow> if e = DoesNotExist Person then Inl CancelTransaction else Inl e
            | Inr person \<Rightarrow> Inr (pk person))
      else Inr Null)"

definition org_membership :: "db \<Rightarrow> item \<Rightarrow> error + item" where
  "org_membership d role =
     (case member_person d role of
        Inl e \<Rightarrow> Inl e
      | Inr person \<Rightarrow>
     (case getitem role ''name'' of
        Inl e \<Rightarrow> Inl e
      | Inr name \<Rightarrow>
          Inr [(''person'', person),
               (''person_name'', name),
               (''role'', dict_get role ''role'' (Str ''member'')),
               (''start_date'', dict_get role ''start_date'' (Str '''')),
               (''end_date'', dict_get role ''end_date'' (Str ''''))]))"

fun org_memberships :: "db \<Rightarrow> item list \<Rightarrow> error + item list" where
  "org_memberships d [] = Inr []"
| "org_memberships d (role # rest) =
     (case org_membership d role of
        Inl e \<Rightarrow> Inl e
      | Inr m \<Rightarrow>
     (case org_memberships d rest of
        Inl e \<Rightarrow> Inl e
      | Inr ms \<Rightarrow> Inr (m # ms)))"

definition load_org :: "db \<Rightarrow> item \<Rightarrow> error + (db \<times> bool \<times> bool)" where
  "load_org d data =
     (case org_parent d data of
        Inl e \<Rightarrow> Inl e
      | Inr parent \<Rightarrow>
     (case org_fields data parent of
        Inl e \<Rightarrow> Inl e
      | Inr field_values \<Rightarrow>
     (case get_update_or_create d Organization field_values [''id''] of
        Inl e \<Rightarrow> Inl e
      | Inr (d0, org, created, updated) \<Rightarrow>
     (case update_from d0 Organization org data ''links'' of
        Inl e \<Rightarrow> Inl e
      | Inr (d1, u1) \<Rightarrow>
     (case update_from d1 Organization org data ''sources'' of
        Inl e \<Rightarrow> Inl e
      | Inr (d2, u2) \<Rightarrow>
     (case dicts_of (AttributeError ''get'') (dict_get data ''memberships'' (Seq [])) of
        Inl e \<Rightarrow> Inl e
      | Inr roles \<Rightarrow>
     (case org_memberships d2 roles of
        Inl e \<Rightarrow> Inl e
      | Inr memberships \<Rightarrow>
     (case update_subobjects d2 Organization org ''memberships'' memberships None of
        (d3, u3) \<Rightarrow> Inr (d3, created, updated \<or> u1 \<or> u2 \<or> u3)))))))))"

section \<open>Ordering organizations: \<^verbatim>\<open>sort_organizations\<close>\<close>

text \<open>
  One run of the inner \<^verbatim>\<open>for\<close> loop over the snapshot \<^verbatim>\<open>list(orgs)\<close>: a record whose
  parent is not an organization id, or is one already seen, moves from \<open>orgs\<close> to the end
  of \<open>order\<close>.
\<close>

fun sort_pass ::
  "(item \<times> string) list \<Rightarrow> (item \<times> string) list \<Rightarrow> val set \<Rightarrow> (item \<times> string) list \<Rightarrow>
     error + ((item \<times> string) list \<times> val set \<times> (item \<times> string) list)" where
  "sort_pass [] orgs seen order = Inr (orgs, seen, order)"
| "sort_pass ((org, filename) # rest) orgs seen order =
     (case getitem org ''parent'' of
        Inl e \<Rightarrow> Inl e
      | Inr parent \<Rightarrow>
     (case parent of
        Str s \<Rightarrow>
          if (startswith s ''ocd-organization'' \<and> parent \<in> seen)
             \<or> \<not> startswith s ''ocd-organization''
          then (case getitem org ''id'' of
                  Inl e \<Rightarrow> Inl e
                | Inr i \<Rightarrow>
                    if \<not> hashable i then Inl TypeError
                    else sort_pass rest (remove1 (org, filename) orgs) (insert i seen)
                           (order @ [(org, filename)]))
          else sort_pass rest orgs seen order
      | _ \<Rightarrow> Inl (AttributeError ''startswith'')))"

text \<open>
  The \<^verbatim>\<open>while orgs:\<close> loop. It has no bound, so it is a partial function: \<open>None\<close> is
  the run that never leaves the loop.
\<close>

partial_function (option) sort_loop ::
  "(item \<times> string) list \<Rightarrow> val set \<Rightarrow> (item \<times> string) list \<Rightarrow>
     (error + (item \<times> string) list) option" where
  "sort_loop orgs seen order =
     (if orgs = [] then Some (Inr order)
      else case sort_pass orgs orgs seen order of
        Inl e \<Rightarrow> Some (Inl e)
      | Inr st \<Rightarrow> sort_loop (fst st) (fst (snd st)) (snd (snd st)))"

declare sort_loop.simps [code]

definition sort_organizations ::
  "(item \<times> string) list \<Rightarrow> (error + (item \<times> string) list) option" where
  "sort_organizations orgs =
     (case sort_loop orgs {} [] of
        None \<Rightarrow> None
      | Some (Inl e) \<Rightarrow> Some (Inl e)
      | Some (Inr order) \<Rightarrow>
          Some (if length order = length orgs then Inr order else Inl AssertionError))"

section \<open>Seeding a jurisdiction: \<^verbatim>\<open>create_juris_orgs_posts\<close>, \<^verbatim>\<open>create_parties\<close>\<close>

text \<open>
  What the metadata package gives for a jurisdiction: its id, name, url and division,
  and its chambers, each with a type, a name, a title and its districts (name, division,
  number of seats).
\<close>

datatype district = District val val val

datatype chamber = Chamber string val val "district list"

datatype state = State val val val val "chamber list"

text \<open>
  \<^verbatim>\<open>ModelCls.objects.update_or_create(defaults=..., **kwargs)\<close>: a row found by
  \<open>kwargs\<close> gets the defaults and is saved; otherwise a row with both is created.
\<close>

definition update_or_create :: "db \<Rightarrow> model \<Rightarrow> item \<Rightarrow> item \<Rightarrow> error + (db \<times> item)" where
  "update_or_create d cls kwargs defaults =
     (case get d (objects cls) kwargs of
        Inr obj \<Rightarrow>
          (let obj' = fold (\<lambda>kv ob. AList.update (fst kv) (snd kv) ob) defaults obj
           in Inr (save d cls obj', obj'))
      | Inl e \<Rightarrow>
          if e = DoesNotExist cls then Inr (create d cls (kwargs @ defaults)) else Inl e)"

definition chamber_posts :: "chamber \<Rightarrow> item list" where
  "chamber_posts ch =
     (case ch of Chamber chamber_type name title districts \<Rightarrow>
        map (\<lambda>di. case di of District dname division_id num_seats \<Rightarrow>
               [(''label'', dname), (''role'', title), (''division_id'', division_id),
                (''maximum_memberships'', num_seats)])
          districts)"

fun chamber_orgs :: "db \<Rightarrow> item \<Rightarrow> chamber list \<Rightarrow> error + db" where
  "chamber_orgs d juris [] = Inr d"
| "chamber_orgs d juris (Chamber chamber_type name title districts # rest) =
     (case update_or_create d Organization
             [(''jurisdiction_id'', pk juris),
              (''classification'',
                 Str (if chamber_type = ''unicameral'' then ''legislature'' else chamber_type))]
             [(''name'', name)] of
        Inl e \<Rightarrow> Inl e
      | Inr (d1, org) \<Rightarrow>
          chamber_orgs
            (fst (update_subobjects d1 Organization org ''posts''
                    (chamber_posts (Chamber chamber_type name title districts)) None))
            juris rest)"

definition create_juris_orgs_posts :: "(val \<Rightarrow> error + state) \<Rightarrow> db \<Rightarrow> val \<Rightarrow> error + db" where
  "create_juris_orgs_posts metadata_lookup d jurisdiction_id =
     (case metadata_lookup jurisdiction_id of
        Inl e \<Rightarrow> Inl e
      | Inr (State sid name url division_id chambers) \<Rightarrow>
          (case update_or_create d Jurisdiction [(''id'', sid)]
                  [(''name'', name), (''url'', url), (''classification'', Str ''government''),
                   (''division_id'', division_id)] of
             Inl e \<Rightarrow> Inl e
           | Inr (d1, juris) \<Rightarrow> chamber_orgs d1 juris chambers))"

text \<open>
  \<^verbatim>\<open>create_parties\<close> runs before any transaction, so what it wrote stays when a later
  party raises; the second component is that error.
\<close>

fun create_parties :: "db \<Rightarrow> val list \<Rightarrow> db \<times> error option" where
  "create_parties d [] = (d, None)"
| "create_parties d (party # rest) =
     (case get d (objects Organization) [(''name'', party), (''classification'', Str ''party'')] of
        Inr org \<Rightarrow> create_parties d rest
      | Inl e \<Rightarrow>
          if e = DoesNotExist Organization
          then create_parties
                 (fst (create d Organization
                         [(''name'', party), (''classification'', Str ''party'')])) rest
          else (d, Some e))"

section \<open>Syncing one directory: \<^verbatim>\<open>load_directory\<close>\<close>

text \<open>
  The ids already stored for the jurisdiction, and the model class, by record type. A
  Python set has no order of its own; the model keeps the order of the store.
\<close>

definition existing_ids :: "db \<Rightarrow> string \<Rightarrow> val \<Rightarrow> error + (model \<times> val list)" where
  "existing_ids d type jurisdiction_id =
     (if type = ''person'' then
        Inr (Person,
             remdups (map pk (filter
               (\<lambda>p. list_ex (\<lambda>m. refers m ''person'' p \<and>
                        list_ex (\<lambda>org. refers m ''organization'' org \<and>
                                   map_of org ''jurisdiction_id'' = Some jurisdiction_id)
                          (table d Organization))
                      (table d Membership))
               (table d Person))))
      else if type = ''organization'' then
        Inr (Organization,
             remdups (map pk (qs_rows d (filter_qs (objects Organization)
               [(''jurisdiction_id'', jurisdiction_id), (''classification'', Str ''committee'')]))))
      else Inl ValueError)"

definition load_func ::
  "(val \<Rightarrow> (string \<times> val list) list) \<Rightarrow> string \<Rightarrow> cache \<Rightarrow> db \<Rightarrow> item \<Rightarrow>
     error + (cache \<times> db \<times> bool \<times> bool)" where
  "load_func legacy_districts type c d data =
     (if type = ''person'' then load_person legacy_districts c d data
      else (case load_org d data of
              Inl e \<Rightarrow> Inl e
            | Inr (d', created, updated) \<Rightarrow> Inr (c, d', created, updated)))"

text \<open>
  The loop over \<^verbatim>\<open>all_data\<close>; the result carries the ids seen. The counts of created
  and updated records only feed the progress report, which is not modelled.
\<close>

fun load_each ::
  "(val \<Rightarrow> (string \<times> val list) list) \<Rightarrow> string \<Rightarrow> cache \<Rightarrow> db \<Rightarrow> (item \<times> string) list \<Rightarrow>
     error + (cache \<times> db \<times> val list)" where
  "load_each legacy_districts type c d [] = Inr (c, d, [])"
| "load_each legacy_districts type c d ((data, filename) # rest) =
     (case getitem data ''id'' of
        Inl e \<Rightarrow> Inl e
      | Inr i \<Rightarrow>
     if \<not> hashable i then Inl TypeError else
     (case load_func legacy_districts type c d data of
        Inl e \<Rightarrow> Inl e
      | Inr (c', d', created, updated) \<Rightarrow>
     (case load_each legacy_districts type c' d' rest of
        Inl e \<Rightarrow> Inl e
      | Inr (c'', d'', ids) \<Rightarrow> Inr (c'', d'', i # ids))))"

text \<open>
  Everything up to \<^verbatim>\<open>missing_ids = existing_ids - ids\<close>. \<open>files\<close> are the parsed
  records with their file names.
\<close>

definition load_records ::
  "(val \<Rightarrow> (string \<times> val list) list) \<Rightarrow> cache \<Rightarrow> db \<Rightarrow> (item \<times> string) list \<Rightarrow> string \<Rightarrow> val \<Rightarrow>
     (error + (cache \<times> db \<times> model \<times> val list)) option" where
  "load_records legacy_districts c d files type jurisdiction_id =
     (case existing_ids d type jurisdiction_id of
        Inl e \<Rightarrow> Some (Inl e)
      | Inr (cls, existing) \<Rightarrow>
     (case (if type = ''organization'' then sort_organizations files else Some (Inr files)) of
        None \<Rightarrow> None
      | Some (Inl e) \<Rightarrow> Some (Inl e)
      | Some (Inr all_data) \<Rightarrow>
          Some (case load_each legacy_districts type c d all_data of
                  Inl e \<Rightarrow> Inl e
                | Inr (c', d', ids) \<Rightarrow>
                    Inr (c', d', cls, filter (\<lambda>i. i \<notin> set ids) existing))))"

text \<open>
  \<^verbatim>\<open>ModelCls.objects.get(identifiers__identifier=missing_id,
  identifiers__scheme="openstates")\<close>: the join gives an entity once for each of its
  identifier rows that has both values.
\<close>

definition merge_target :: "db \<Rightarrow> model \<Rightarrow> val \<Rightarrow> error + item" where
  "merge_target d cls missing_id =
     (case concat (map (\<lambda>e. map (\<lambda>i. e)
                     (filter (\<lambda>i. refers i (fk_name cls) e \<and>
                                 agrees i [(''identifier'', missing_id),
                                           (''scheme'', Str ''openstates'')])
                        (table d (Child cls ''identifiers''))))
                   (table d cls)) of
        [] \<Rightarrow> Inl (DoesNotExist cls)
      | [e] \<Rightarrow> Inr e
      | _ \<Rightarrow> Inl (MultipleObjectsReturned cls))"

fun find_merged :: "db \<Rightarrow> model \<Rightarrow> val list \<Rightarrow> error + (val \<times> val) list" where
  "find_merged d cls [] = Inr []"
| "find_merged d cls (missing_id # rest) =
     (case merge_target d cls missing_id of
        Inl e \<Rightarrow> if e = DoesNotExist cls then find_merged d cls rest else Inl e
      | Inr found \<Rightarrow>
          (case find_merged d cls rest of
             Inl e \<Rightarrow> Inl e
           | Inr merged \<Rightarrow> Inr ((missing_id, pk found) # merged)))"

text \<open>\<^verbatim>\<open>qs.update(field=v)\<close> writes one field of every row of the query set.\<close>

definition update_qs :: "db \<Rightarrow> queryset \<Rightarrow> string \<Rightarrow> val \<Rightarrow> db" where
  "update_qs d qs field v =
     d\<lparr>rows := map (\<lambda>cr. if fst cr = fst qs \<and> snd qs d (snd cr)
                          then (fst cr, AList.update field v (snd cr)) else cr) (rows d)\<rparr>"

text \<open>
  The loop over \<^verbatim>\<open>merged.items()\<close>. The name \<^verbatim>\<open>BillSponsorship\<close> is bound by the
  import in the \<^verbatim>\<open>"person"\<close> branch alone; reading it in any other run raises.
\<close>

fun apply_merged ::
  "string \<Rightarrow> db \<Rightarrow> model \<Rightarrow> (val \<times> val) list \<Rightarrow> val list \<Rightarrow> error + (db \<times> val list)" where
  "apply_merged type d cls [] missing_ids = Inr (d, missing_ids)"
| "apply_merged type d cls ((old, new) # rest) missing_ids =
     (if type \<noteq> ''person'' then Inl NameError
      else
        let d1 = update_qs d (filter_qs (objects BillSponsorship) [(''person_id'', old)])
                   ''person_id'' new;
            d2 = delete d1 (filter_qs (objects cls) [(''id'', old)])
        in apply_merged type d2 cls rest (removeAll old missing_ids))"

text \<open>The loop that prints each missing object, \<^verbatim>\<open>ModelCls.objects.get(pk=id)\<close>.\<close>

fun report_missing :: "db \<Rightarrow> model \<Rightarrow> val list \<Rightarrow> error + unit" where
  "report_missing d cls [] = Inr ()"
| "report_missing d cls (i # rest) =
     (case get d (objects cls) [(''id'', i)] of
        Inl e \<Rightarrow> Inl e
      | Inr mobj \<Rightarrow> report_missing d cls rest)"

definition id_in :: "model \<Rightarrow> val list \<Rightarrow> queryset" where
  "id_in cls ids = (cls, \<lambda>d r. case map_of r ''id'' of None \<Rightarrow> False | Some v \<Rightarrow> v \<in> set ids)"

definition purge_or_cancel :: "db \<Rightarrow> model \<Rightarrow> val list \<Rightarrow> bool \<Rightarrow> error + db" where
  "purge_or_cancel d cls missing_ids purge =
     (if missing_ids \<noteq> [] \<and> \<not> purge then
        (case report_missing d cls missing_ids of
           Inl e \<Rightarrow> Inl e
         | Inr u \<Rightarrow> Inl CancelTransaction)
      else if missing_ids \<noteq> [] \<and> purge then Inr (delete d (id_in cls missing_ids))
      else Inr d)"

definition load_directory ::
  "(val \<Rightarrow> (string \<times> val list) list) \<Rightarrow> cache \<Rightarrow> db \<Rightarrow> (item \<times> string) list \<Rightarrow> string \<Rightarrow> val \<Rightarrow>
     bool \<Rightarrow> (error + (cache \<times> db)) option" where
  "load_directory legacy_districts c d files type jurisdiction_id purge =
     (case load_records legacy_districts c d files type jurisdiction_id of
        None \<Rightarrow> None
      | Some (Inl e) \<Rightarrow> Some (Inl e)
      | Some (Inr (c', d1, cls, missing_ids)) \<Rightarrow>
          Some (case find_merged d1 cls missing_ids of
                  Inl e \<Rightarrow> Inl e
                | Inr merged \<Rightarrow>
               (case apply_merged type d1 cls merged missing_ids of
                  Inl e \<Rightarrow> Inl e
                | Inr (d2, still_missing) \<Rightarrow>
               (case purge_or_cancel d2 cls still_missing purge of
                  Inl e \<Rightarrow> Inl e
                | Inr d3 \<Rightarrow> Inr (c', d3)))))"

section \<open>The command: \<^verbatim>\<open>to_database\<close>\<close>

text \<open>
  What the command reads from outside the store: the helpers of \<^verbatim>\<open>utils\<close>, the
  metadata package, the settings file and the parsed data files of each abbreviation.
\<close>

record env =
  legacy_of :: "val \<Rightarrow> (string \<times> val list) list"
  metadata_of :: "val \<Rightarrow> error + state"
  settings_parties :: "val list"
  all_abbreviations :: "string list"
  jurisdiction_of :: "string \<Rightarrow> error + val"
  person_files :: "string \<Rightarrow> (item \<times> string) list"
  committee_files :: "string \<Rightarrow> (item \<times> string) list"

text \<open>
  The body of \<^verbatim>\<open>with transaction.atomic():\<close> for one abbreviation. An error leaves
  the block as an exception; \<open>None\<close> is a run that never leaves it.
\<close>

definition transaction_body ::
  "env \<Rightarrow> bool \<Rightarrow> bool \<Rightarrow> cache \<Rightarrow> db \<Rightarrow> string \<Rightarrow> val \<Rightarrow> (error + (cache \<times> db)) option" where
  "transaction_body e purge safe c d abbr jurisdiction_id =
     (case create_juris_orgs_posts (metadata_of e) d jurisdiction_id of
        Inl err \<Rightarrow> Some (Inl err)
      | Inr d1 \<Rightarrow>
     (case load_directory (legacy_of e) c d1 (person_files e abbr) ''person''
             jurisdiction_id purge of
        None \<Rightarrow> None
      | Some (Inl err) \<Rightarrow> Some (Inl err)
      | Some (Inr (c2, d2)) \<Rightarrow>
     (case load_directory (legacy_of e) c2 d2 (committee_files e abbr) ''organization''
             jurisdiction_id purge of
        None \<Rightarrow> None
      | Some (Inl err) \<Rightarrow> Some (Inl err)
      | Some (Inr (c3, d3)) \<Rightarrow>
          if safe then Some (Inl CancelTransaction) else Some (Inr (c3, d3)))))"

text \<open>
  How the process ends: the loop ran through, \<^verbatim>\<open>sys.exit\<close> was called, or an exception
  nobody catches reached the top (the interpreter then exits with status 1).
\<close>

datatype outcome = Finished | SysExit nat | Uncaught error

fun exit_status :: "outcome \<Rightarrow> nat" where
  "exit_status Finished = 0"
| "exit_status (SysExit n) = n"
| "exit_status (Uncaught e) = 1"

text \<open>
  The loop over the abbreviations. A transaction that raises is rolled back: the store
  is the one the block started from. \<^verbatim>\<open>CancelTransaction\<close> is caught and answered with
  \<^verbatim>\<open>sys.exit(1)\<close>; any other exception is not caught.
\<close>

fun sync_all :: "env \<Rightarrow> bool \<Rightarrow> bool \<Rightarrow> cache \<Rightarrow> db \<Rightarrow> string list \<Rightarrow> (db \<times> outcome) option" where
  "sync_all e purge safe c d [] = Some (d, Finished)"
| "sync_all e purge safe c d (abbr # rest) =
     (case jurisdiction_of e abbr of
        Inl err \<Rightarrow> Some (d, Uncaught err)
      | Inr jurisdiction_id \<Rightarrow>
     (case transaction_body e purge safe c d abbr jurisdiction_id of
        None \<Rightarrow> None
      | Some (Inl err) \<Rightarrow>
          Some (d, if err = CancelTransaction then SysExit 1 else Uncaught err)
      | Some (Inr (c', d')) \<Rightarrow> sync_all e purge safe c' d' rest))"

definition to_database :: "env \<Rightarrow> db \<Rightarrow> string list \<Rightarrow> bool \<Rightarrow> bool \<Rightarrow> (db \<times> outcome) option" where
  "to_database e d abbreviations purge safe =
     (case create_parties d (settings_parties e) of
        (d0, Some err) \<Rightarrow> Some (d0, Uncaught err)
      | (d0, None) \<Rightarrow>
          sync_all e purge safe [] d0
            (if abbreviations = [] then all_abbreviations e else abbreviations))"

section \<open>Vocabulary of the properties\<close>

text \<open>
  The read view \<^verbatim>\<open>update_subobjects\<close> works with (the manager itself when no
  \<^verbatim>\<open>read_manager\<close> is passed), the stored items it shows, and the test for a change as
  the specification words it: the count differs, or some stored item has no match among
  the desired items.
\<close>

definition read_view :: "model \<Rightarrow> item \<Rightarrow> string \<Rightarrow> queryset option \<Rightarrow> queryset" where
  "read_view cls person fieldname read_manager =
     (case read_manager of None \<Rightarrow> all_of (related cls person fieldname) | Some q \<Rightarrow> q)"

definition visible :: "db \<Rightarrow> model \<Rightarrow> item \<Rightarrow> string \<Rightarrow> queryset option \<Rightarrow> item list" where
  "visible d cls person fieldname read_manager =
     qs_rows d (read_view cls person fieldname read_manager)"

definition changed :: "item list \<Rightarrow> item list \<Rightarrow> bool" where
  "changed stored objs =
     (length stored \<noteq> length objs \<or>
      list_ex (\<lambda>r. list_all (\<lambda>obj. \<not> matches r obj) objs) stored)"

text \<open>
  The rows of a table that have, under every lookup key, the value the field mapping
  gives: what \<^verbatim>\<open>ModelCls.objects.get(**kwargs)\<close> in \<^verbatim>\<open>get_update_or_create\<close> chooses
  from.
\<close>

definition stored_under :: "db \<Rightarrow> model \<Rightarrow> item \<Rightarrow> string list \<Rightarrow> item list" where
  "stored_under d cls data lookup_keys =
     filter (\<lambda>r. list_all (\<lambda>k. map_of r k = map_of data k) lookup_keys) (table d cls)"

definition differs :: "item \<Rightarrow> item \<Rightarrow> bool" where
  "differs r data = list_ex (\<lambda>f. map_of r f \<noteq> map_of data f) (map fst data)"

text \<open>
  A blocked set \<open>S\<close> of a batch \<open>U\<close>: records still waiting whose parent is an organization
  id that is not seen and is the id of no record of the batch outside \<open>S\<close>. A pass moves
  none of them and keeps the set blocked.
\<close>

definition blocked ::
  "(item \<times> string) set \<Rightarrow> (item \<times> string) set \<Rightarrow> (item \<times> string) list \<Rightarrow> val set \<Rightarrow> bool" where
  "blocked S U orgs seen \<longleftrightarrow>
     S \<noteq> {} \<and> S \<subseteq> set orgs \<and> set orgs \<subseteq> U \<and>
     (\<forall>x \<in> S. \<exists>s. map_of (fst x) ''parent'' = Some (Str s) \<and> startswith s ''ocd-organization'' \<and>
        Str s \<notin> seen \<and> (\<forall>y \<in> U - S. map_of (fst y) ''id'' \<noteq> Some (Str s)))"

text \<open>A well-formed batch: every record has a string parent and a hashable id.\<close>

definition well_formed :: "(item \<times> string) set \<Rightarrow> bool" where
  "well_formed U \<longleftrightarrow>
     (\<forall>x \<in> U. (\<exists>s. map_of (fst x) ''parent'' = Some (Str s)) \<and>
              (\<exists>i. map_of (fst x) ''id'' = Some i \<and> hashable i))"


text \<open>
  A sub-collection is in sync with the desired items when the test for a change fails.
  A record is stored when its row is there under its id with every scalar field as the
  record gives it, and each of its sub-collections is in sync with what the loader would
  write for it.
\<close>

definition in_sync ::
  "db \<Rightarrow> model \<Rightarrow> item \<Rightarrow> string \<Rightarrow> item list \<Rightarrow> queryset option \<Rightarrow> bool" where
  "in_sync d cls obj fieldname objs read_manager =
     (\<not> changed (visible d cls obj fieldname read_manager) objs)"

definition passed_in_sync :: "db \<Rightarrow> model \<Rightarrow> item \<Rightarrow> item \<Rightarrow> string \<Rightarrow> bool" where
  "passed_in_sync d cls obj data fieldname =
     (case dicts_of TypeError (dict_get data fieldname (Seq [])) of
        Inl e \<Rightarrow> False
      | Inr objs \<Rightarrow> in_sync d cls obj fieldname objs None)"

definition person_stored ::
  "(val \<Rightarrow> (string \<times> val list) list) \<Rightarrow> cache \<Rightarrow> db \<Rightarrow> item \<Rightarrow> bool" where
  "person_stored legacy_districts c d data =
     (case person_fields data of
        Inl e \<Rightarrow> False
      | Inr field_values \<Rightarrow>
     (case stored_under d Person field_values [''id''] of
        [person] \<Rightarrow>
          \<not> differs person field_values \<and>
          passed_in_sync d Person person data ''other_names'' \<and>
          passed_in_sync d Person person data ''links'' \<and>
          passed_in_sync d Person person data ''sources'' \<and>
          (case person_identifiers data of
             Inl e \<Rightarrow> False
           | Inr objs \<Rightarrow> in_sync d Person person ''identifiers'' objs None) \<and>
          (case person_contact_details data of
             Inl e \<Rightarrow> False
           | Inr objs \<Rightarrow> in_sync d Person person ''contact_details'' objs None) \<and>
          (case person_memberships legacy_districts c d data of
             Inl e \<Rightarrow> False
           | Inr cm \<Rightarrow>
               in_sync d Person person ''memberships'' (snd cm) (Some (non_committee person)))
      | _ \<Rightarrow> False))"

definition org_stored :: "db \<Rightarrow> item \<Rightarrow> bool" where
  "org_stored d data =
     (case org_parent d data of
        Inl e \<Rightarrow> False
      | Inr parent \<Rightarrow>
     (case org_fields data parent of
        Inl e \<Rightarrow> False
      | Inr field_values \<Rightarrow>
     (case stored_under d Organization field_values [''id''] of
        [org] \<Rightarrow>
          \<not> differs org field_values \<and>
          passed_in_sync d Organization org data ''links'' \<and>
          passed_in_sync d Organization org data ''sources'' \<and>
          (case dicts_of (AttributeError ''get'') (dict_get data ''memberships'' (Seq [])) of
             Inl e \<Rightarrow> False
           | Inr roles \<Rightarrow>
               (case org_memberships d roles of
                  Inl e \<Rightarrow> False
                | Inr objs \<Rightarrow> in_sync d Organization org ''memberships'' objs None))
      | _ \<Rightarrow> False)))"

text \<open>
  A committee membership of a person: a membership row of the person whose organization
  is classified as a committee, which is what the read view of \<^verbatim>\<open>load_person\<close> leaves
  out.
\<close>

definition committee_membership :: "db \<Rightarrow> val \<Rightarrow> item \<Rightarrow> bool" where
  "committee_membership d pid r =
     (map_of r ''person'' = Some pid \<and>
      list_ex (\<lambda>org. refers r ''organization'' org \<and>
                 map_of org ''classification'' = Some (Str ''committee''))
        (table d Organization))"

section \<open>Example stores and records\<close>

text \<open>A person with two stored links that have the same url.\<close>

definition ex_person :: item where
  "ex_person = [(''id'', Str ''p1''), (''name'', Str ''Jane Smith'')]"

definition ex_link :: "string \<Rightarrow> nat \<Rightarrow> item" where
  "ex_link url k = [(''person'', Str ''p1''), (''url'', Str url), (''id'', Key k)]"

definition ex_store :: db where
  "ex_store =
     \<lparr>rows = [(Person, ex_person),
              (Child Person ''links'', ex_link ''https://example.com/jane'' 0),
              (Child Person ''links'', ex_link ''https://example.com/jane'' 1)],
      next_key = 2, clock = 0\<rparr>"


text \<open>
  Two committees that name each other as parent, and a committee whose parent id is in no
  record of the batch.
\<close>

definition ex_cycle :: "(item \<times> string) list" where
  "ex_cycle =
     [([(''id'', Str ''ocd-organization/a''), (''parent'', Str ''ocd-organization/b'')], ''a.yml''),
      ([(''id'', Str ''ocd-organization/b''), (''parent'', Str ''ocd-organization/a'')], ''b.yml'')]"

definition ex_orphan :: "(item \<times> string) list" where
  "ex_orphan =
     [([(''id'', Str ''ocd-organization/a''), (''parent'', Str ''lower'')], ''a.yml''),
      ([(''id'', Str ''ocd-organization/c''), (''parent'', Str ''ocd-organization/x'')], ''c.yml'')]"

text \<open>
  A store seeded like the test suite's: the lower chamber with a post for district 3, the
  executive, a party and a committee of the chamber; and Jane Smith, stored with her party
  membership, her seat and a membership of the committee.
\<close>

definition ex_jurisdiction :: val where
  "ex_jurisdiction = Str ''ocd-jurisdiction/country:us/state:nc/government''"

definition ex_orgs :: "(model \<times> item) list" where
  "ex_orgs =
     [(Organization, [(''id'', Str ''ocd-organization/house''), (''name'', Str ''House''),
                      (''classification'', Str ''lower''), (''jurisdiction_id'', ex_jurisdiction)]),
      (Post, [(''organization'', Str ''ocd-organization/house''), (''label'', Str ''3''),
              (''id'', Str ''ocd-post/3'')]),
      (Organization, [(''id'', Str ''ocd-organization/executive''), (''name'', Str ''Executive''),
                      (''classification'', Str ''executive''),
                      (''jurisdiction_id'', ex_jurisdiction)]),
      (Organization, [(''id'', Str ''ocd-organization/democratic''), (''name'', Str ''Democratic''),
                      (''classification'', Str ''party'')]),
      (Organization, [(''id'', Str ''ocd-organization/finance''), (''name'', Str ''Finance''),
                      (''classification'', Str ''committee''),
                      (''jurisdiction_id'', ex_jurisdiction),
                      (''founding_date'', Str ''''), (''dissolution_date'', Str ''''),
                      (''parent'', Str ''ocd-organization/house'')])]"

definition ex_jane_row :: item where
  "ex_jane_row =
     [(''id'', Str ''p1''), (''name'', Str ''Jane Smith''), (''given_name'', Str ''''),
      (''family_name'', Str ''''), (''gender'', Str ''''), (''biography'', Str ''''),
      (''birth_date'', Str ''''), (''death_date'', Str ''''), (''image'', Str ''''),
      (''extras'', Dict []), (''created_at'', Stamp 1), (''updated_at'', Stamp 1)]"

definition ex_committee_membership :: item where
  "ex_committee_membership =
     [(''organization'', Str ''ocd-organization/finance''), (''person'', Str ''p1''),
      (''person_name'', Str ''Jane Smith''), (''role'', Str ''member''),
      (''start_date'', Str ''''), (''end_date'', Str ''''), (''id'', Key 2)]"

definition ex_nc :: db where
  "ex_nc =
     \<lparr>rows = ex_orgs @
        [(Person, ex_jane_row),
         (Membership, [(''person'', Str ''p1''), (''organization'', Str ''ocd-organization/democratic''),
                       (''start_date'', Str ''''), (''end_date'', Str ''''), (''id'', Key 0)]),
         (Membership, [(''person'', Str ''p1''), (''organization'', Str ''ocd-organization/house''),
                       (''post'', Str ''ocd-post/3''), (''start_date'', Str ''''),
                       (''end_date'', Str ''''), (''id'', Key 1)]),
         (Membership, ex_committee_membership)],
      next_key = 3, clock = 1\<rparr>"

definition ex_jane :: item where
  "ex_jane =
     [(''id'', Str ''p1''), (''name'', Str ''Jane Smith''),
      (''party'', Seq [Dict [(''name'', Str ''Democratic'')]]),
      (''roles'', Seq [Dict [(''type'', Str ''lower''), (''district'', Str ''3''),
                            (''jurisdiction'', ex_jurisdiction)]])]"

definition ex_governor :: item where
  "ex_governor =
     [(''id'', Str ''p1''), (''name'', Str ''Jane Smith''),
      (''roles'', Seq [Dict [(''type'', Str ''governor''), (''jurisdiction'', ex_jurisdiction)]])]"

definition ex_legacy :: "val \<Rightarrow> (string \<times> val list) list" where
  "ex_legacy j = [(''upper'', []), (''lower'', [])]"

text \<open>
  An environment with one abbreviation, no chambers in the metadata, one party in the
  settings, one person file and no committee file; the same without the person file; and
  the empty store.
\<close>

definition ex_metadata :: "val \<Rightarrow> error + state" where
  "ex_metadata j = Inr (State j (Str ''North Carolina'') (Str ''https://nc.gov'')
                          (Str ''ocd-division/country:us/state:nc'') [])"

definition ex_jane_file :: "item \<times> string" where
  "ex_jane_file =
     ([(''id'', Str ''p1''), (''name'', Str ''Jane Smith''),
       (''party'', Seq [Dict [(''name'', Str ''Democratic'')]])], ''people/jane.yml'')"

definition ex_env :: env where
  "ex_env =
     \<lparr>legacy_of = ex_legacy, metadata_of = ex_metadata, settings_parties = [Str ''Democratic''],
      all_abbreviations = [''nc''], jurisdiction_of = (\<lambda>abbr. Inr ex_jurisdiction),
      person_files = (\<lambda>abbr. [ex_jane_file]), committee_files = (\<lambda>abbr. [])\<rparr>"

definition ex_env_no_files :: env where
  "ex_env_no_files = ex_env\<lparr>person_files := (\<lambda>abbr. [])\<rparr>"

definition ex_empty :: db where
  "ex_empty = \<lparr>rows = [], next_key = 0, clock = 0\<rparr>"

text \<open>
  The store of the example above with one more committee, Budget, which carries the id
  of Finance as its \<^verbatim>\<open>openstates\<close> identifier; and Budget's record.
\<close>

definition ex_budget_row :: item where
  "ex_budget_row =
     [(''id'', Str ''ocd-organization/budget''), (''name'', Str ''Budget''),
      (''jurisdiction_id'', ex_jurisdiction), (''classification'', Str ''committee''),
      (''founding_date'', Str ''''), (''dissolution_date'', Str ''''),
      (''parent'', Str ''ocd-organization/house''), (''created_at'', Stamp 2),
      (''updated_at'', Stamp 2)]"

definition ex_merged :: db where
  "ex_merged =
     \<lparr>rows = rows ex_nc @
        [(Organization, ex_budget_row),
         (Child Organization ''identifiers'',
            [(''organization'', Str ''ocd-organization/budget''), (''scheme'', Str ''openstates''),
             (''identifier'', Str ''ocd-organization/finance''), (''id'', Key 3)])],
      next_key = 4, clock = 2\<rparr>"

definition ex_budget_file :: "item \<times> string" where
  "ex_budget_file =
     ([(''id'', Str ''ocd-organization/budget''), (''name'', Str ''Budget''),
       (''parent'', Str ''lower''), (''jurisdiction'', ex_jurisdiction),
       (''classification'', Str ''committee'')], ''organizations/budget.yml'')"

text \<open>
  The empty store after \<^verbatim>\<open>create_parties\<close>, and after a whole run of the command with
  the example environment.
\<close>

definition ex_partied :: db where
  "ex_partied =
     \<lparr>rows = [(Organization, [(''name'', Str ''Democratic''), (''classification'', Str ''party''),
                               (''id'', Key 0), (''created_at'', Stamp 1),
                               (''updated_at'', Stamp 1)])],
      next_key = 1, clock = 1\<rparr>"

definition ex_synced :: db where
  "ex_synced =
     \<lparr>rows = rows ex_partied @
        [(Jurisdiction, [(''id'', ex_jurisdiction), (''name'', Str ''North Carolina''),
                         (''url'', Str ''https://nc.gov''), (''classification'', Str ''government''),
                         (''division_id'', Str ''ocd-division/country:us/state:nc''),
                         (''id'', Key 1), (''created_at'', Stamp 2), (''updated_at'', Stamp 2)]),
         (Person, [(''id'', Str ''p1''), (''name'', Str ''Jane Smith''), (''given_name'', Str ''''),
                   (''family_name'', Str ''''), (''gender'', Str ''''), (''biography'', Str ''''),
                   (''birth_date'', Str ''''), (''death_date'', Str ''''), (''image'', Str ''''),
                   (''extras'', Dict []), (''id'', Key 2), (''created_at'', Stamp 3),
                   (''updated_at'', Stamp 4)]),
         (Membership, [(''person'', Str ''p1''), (''organization'', Key 0),
                       (''start_date'', Str ''''), (''end_date'', Str ''''), (''id'', Key 3)])],
      next_key = 4, clock = 4\<rparr>"

text \<open>
  The store of the example after the jurisdiction is seeded, and an environment whose
  files are Jane's record and Budget's.
\<close>

definition ex_nc_seeded :: db where
  "ex_nc_seeded =
     \<lparr>rows = rows ex_nc @
        [(Jurisdiction, [(''id'', ex_jurisdiction), (''name'', Str ''North Carolina''),
                         (''url'', Str ''https://nc.gov''), (''classification'', Str ''government''),
                         (''division_id'', Str ''ocd-division/country:us/state:nc''),
                         (''id'', Key 3), (''created_at'', Stamp 2), (''updated_at'', Stamp 2)])],
      next_key = 4, clock = 2\<rparr>"

definition ex_env_merge :: env where
  "ex_env_merge =
     ex_env\<lparr>person_files := (\<lambda>abbr. [(ex_jane, ''people/jane.yml'')]),
            committee_files := (\<lambda>abbr. [ex_budget_file])\<rparr>"

section \<open>Properties of \<^verbatim>\<open>update_subobjects\<close>\<close>

lemma foldl_exclude:
  "foldl exclude q objs = (fst q, \<lambda>d r. snd q d r \<and> list_all (\<lambda>obj. \<not> matches r obj) objs)"
proof (induction objs arbitrary: q)
  case Nil
  then show ?case by simp
next
  case (Cons obj objs)
  show ?case
    unfolding foldl_Cons Cons.IH
    by (auto simp: exclude_def fun_eq_iff)
qed

lemma foldl_manager_create:
  "foldl (\<lambda>d obj. manager_create d m obj) d objs =
     d\<lparr>rows := rows d @ map (\<lambda>(k, obj). new_row m k obj) (enumerate (next_key d) objs),
       next_key := next_key d + length objs\<rparr>"
proof (induction objs arbitrary: d)
  case Nil
  then show ?case by simp
next
  case (Cons obj objs)
  show ?case
    unfolding foldl_Cons Cons.IH
    by (simp add: manager_create_def)
qed

lemma update_subobjects_flag:
  "snd (update_subobjects d cls person fieldname objs rm) =
     changed (visible d cls person fieldname rm) objs"
  by (auto simp: update_subobjects_def Let_def read_view_def visible_def changed_def count_qs_def
      exists_qs_def foldl_exclude qs_rows_def list_ex_iff filter_empty_conv split: option.splits)

lemma update_subobjects_unchanged:
  "\<not> changed (visible d cls person fieldname rm) objs \<Longrightarrow>
   update_subobjects d cls person fieldname objs rm = (d, False)"
  using update_subobjects_flag [of d cls person fieldname objs rm]
  by (auto simp: update_subobjects_def Let_def split: if_splits)

lemma update_subobjects_changed:
  "changed (visible d cls person fieldname rm) objs \<Longrightarrow>
   update_subobjects d cls person fieldname objs rm =
     (save (foldl (\<lambda>d obj. manager_create d (related cls person fieldname) obj)
              (if count_qs d (read_view cls person fieldname rm) \<noteq> 0
               then delete d (read_view cls person fieldname rm) else d) objs) cls person, True)"
  using update_subobjects_flag [of d cls person fieldname objs rm]
  by (auto simp: update_subobjects_def Let_def read_view_def split: if_splits option.splits)

lemma table_delete:
  "table (delete d q) T = filter (\<lambda>r. \<not> (T = fst q \<and> snd q d r)) (table d T)"
  by (auto simp: table_def delete_def filter_map o_def intro!: arg_cong [where f = "map snd"] filter_cong)

lemma table_delete_if:
  "table (if count_qs d q \<noteq> 0 then delete d q else d) T =
     filter (\<lambda>r. \<not> (T = fst q \<and> snd q d r)) (table d T)"
proof (cases "count_qs d q = 0")
  case True
  then have "\<forall>r \<in> set (table d (fst q)). \<not> snd q d r"
    by (simp add: count_qs_def qs_rows_def filter_empty_conv)
  then have "filter (\<lambda>r. \<not> (T = fst q \<and> snd q d r)) (table d T) = table d T"
    by (auto simp: filter_id_conv)
  with True show ?thesis by simp
next
  case False
  then show ?thesis by (simp add: table_delete)
qed

lemma fst_new_row: "fst (new_row m k obj) = fst m"
  by (simp add: new_row_def split: prod.splits)

lemma table_foldl_manager_create:
  "table (foldl (\<lambda>d obj. manager_create d m obj) d objs) T =
     table d T @ (if T = fst m then map (\<lambda>(k, obj). snd (new_row m k obj)) (enumerate (next_key d) objs)
                  else [])"
proof -
  have "filter (\<lambda>cr. fst cr = T) (map (\<lambda>(k, obj). new_row m k obj) kos) =
          (if T = fst m then map (\<lambda>(k, obj). new_row m k obj) kos else [])" for kos
    by (induction kos) (auto simp: fst_new_row)
  then show ?thesis
    by (simp add: foldl_manager_create table_def o_def split_def)
qed

lemma next_key_delete_if [simp]:
  "next_key (if b then delete d q else d) = next_key d"
  "clock (if b then delete d q else d) = clock d"
  by (simp_all add: delete_def)

lemma clock_foldl_manager_create [simp]:
  "clock (foldl (\<lambda>d obj. manager_create d m obj) d objs) = clock d"
  "next_key (foldl (\<lambda>d obj. manager_create d m obj) d objs) = next_key d + length objs"
  by (simp_all add: foldl_manager_create)

lemma clock_save [simp]:
  "clock (save d cls obj) = Suc (clock d)" "next_key (save d cls obj) = next_key d"
  by (simp_all add: save_def Let_def)

lemma table_save_other: "T \<noteq> cls \<Longrightarrow> table (save d cls obj) T = table d T"
proof -
  assume T: "T \<noteq> cls"
  have "filter (\<lambda>cr. fst cr = T) (map (\<lambda>cr. if stored_as cls obj cr then (cls, obj') else cr) rs) =
          filter (\<lambda>cr. fst cr = T) rs" for rs obj'
    using T by (induction rs) (auto simp: stored_as_def)
  then show ?thesis
    using T by (simp add: save_def Let_def table_def)
qed

lemma table_save_others:
  "filter (\<lambda>r. map_of r ''id'' \<noteq> map_of obj ''id'') (table (save d cls obj) cls) =
   filter (\<lambda>r. map_of r ''id'' \<noteq> map_of obj ''id'') (table d cls)"
proof -
  have id': "map_of (AList.update ''updated_at'' v obj) ''id'' = map_of obj ''id''" for v
    by (simp add: update_conv')
  have "filter (\<lambda>r. map_of r ''id'' \<noteq> map_of obj ''id'')
          (map snd (filter (\<lambda>cr. fst cr = cls)
             (map (\<lambda>cr. if stored_as cls obj cr then (cls, obj') else cr) rs))) =
        filter (\<lambda>r. map_of r ''id'' \<noteq> map_of obj ''id'')
          (map snd (filter (\<lambda>cr. fst cr = cls) rs))"
    if "map_of obj' ''id'' = map_of obj ''id''" for rs obj'
    using that by (induction rs) (auto simp: stored_as_def)
  then show ?thesis
    by (simp add: save_def Let_def table_def id')
qed

lemma table_save_owner:
  "filter (\<lambda>r. map_of r ''id'' = map_of obj ''id'') (table (save d cls obj) cls) =
   replicate (max 1 (length (filter (\<lambda>r. map_of r ''id'' = map_of obj ''id'') (table d cls))))
     (AList.update ''updated_at'' (Stamp (Suc (clock d))) obj)"
proof -
  have id': "map_of (AList.update ''updated_at'' v obj) ''id'' = map_of obj ''id''" for v
    by (simp add: update_conv')
  have A: "filter (\<lambda>r. map_of r ''id'' = map_of obj ''id'')
          (map snd (filter (\<lambda>cr. fst cr = cls)
             (map (\<lambda>cr. if stored_as cls obj cr then (cls, obj') else cr) rs))) =
        replicate (length (filter (\<lambda>r. map_of r ''id'' = map_of obj ''id'')
          (map snd (filter (\<lambda>cr. fst cr = cls) rs)))) obj'"
    if "map_of obj' ''id'' = map_of obj ''id''" for rs obj'
    using that by (induction rs) (auto simp: stored_as_def)
  have B: "list_ex (stored_as cls obj) rs \<longleftrightarrow>
        filter (\<lambda>r. map_of r ''id'' = map_of obj ''id'') (map snd (filter (\<lambda>cr. fst cr = cls) rs)) \<noteq> []" for rs
    by (induction rs) (auto simp: stored_as_def)
  show ?thesis
  proof (cases "list_ex (stored_as cls obj) (rows d)")
    case True
    then have "filter (\<lambda>r. map_of r ''id'' = map_of obj ''id'') (table d cls) \<noteq> []"
      unfolding B table_def .
    then have "0 < length (filter (\<lambda>r. map_of r ''id'' = map_of obj ''id'') (table d cls))"
      by simp
    then have "max 1 (length (filter (\<lambda>r. map_of r ''id'' = map_of obj ''id'') (table d cls))) =
       length (filter (\<lambda>r. map_of r ''id'' = map_of obj ''id'') (table d cls))"
      by linarith
    then show ?thesis
      using True by (simp add: save_def Let_def table_def A id')
  next
    case False
    then have "filter (\<lambda>r. map_of r ''id'' = map_of obj ''id'') (table d cls) = []"
      unfolding B table_def by blast
    then show ?thesis
      using False by (simp add: save_def Let_def table_def id')
  qed
qed

lemma related_not_owner:
  "cls = Person \<or> cls = Organization \<Longrightarrow> fst (related cls person fieldname) \<noteq> cls"
  by (auto simp: related_def)

text \<open>
  Claim C2. \<^verbatim>\<open>update_subobjects\<close> reports a change exactly when the number of stored
  items under the read view differs from the number of desired items, or some stored item
  under the read view matches no desired item. When it reports one for a person or an
  organization, with a read view over the manager's own table: every row the read view
  shows is gone from that table and every other row of it stays; one fresh row per desired
  item is appended, with the next keys of the store, the owner as foreign key and the
  item's fields; no other table but the owner's changes; in the owner's table the rows of
  other entities stay and the owner's row is the owner with \<^verbatim>\<open>updated_at\<close> set to the
  next reading of the clock.
\<close>

theorem update_subobjects_replaces_on_change:
  "snd (update_subobjects d cls person fieldname objs rm) =
     changed (visible d cls person fieldname rm) objs \<and>
   (changed (visible d cls person fieldname rm) objs \<and>
    (cls = Person \<or> cls = Organization) \<and>
    fst (read_view cls person fieldname rm) = fst (related cls person fieldname) \<longrightarrow>
      (\<forall>T. T \<noteq> cls \<longrightarrow>
         table (fst (update_subobjects d cls person fieldname objs rm)) T =
           filter (\<lambda>r. \<not> (T = fst (related cls person fieldname) \<and>
                           snd (read_view cls person fieldname rm) d r)) (table d T) @
           (if T = fst (related cls person fieldname)
            then map (\<lambda>(k, obj). snd (new_row (related cls person fieldname) k obj))
                   (enumerate (next_key d) objs)
            else [])) \<and>
      filter (\<lambda>r. map_of r ''id'' \<noteq> map_of person ''id'')
        (table (fst (update_subobjects d cls person fieldname objs rm)) cls) =
      filter (\<lambda>r. map_of r ''id'' \<noteq> map_of person ''id'') (table d cls) \<and>
      filter (\<lambda>r. map_of r ''id'' = map_of person ''id'')
        (table (fst (update_subobjects d cls person fieldname objs rm)) cls) =
      replicate (max 1 (length (filter (\<lambda>r. map_of r ''id'' = map_of person ''id'') (table d cls))))
        (AList.update ''updated_at'' (Stamp (Suc (clock d))) person) \<and>
      clock (fst (update_subobjects d cls person fieldname objs rm)) = Suc (clock d) \<and>
      next_key (fst (update_subobjects d cls person fieldname objs rm)) = next_key d + length objs)"
proof (intro conjI impI)
  show "snd (update_subobjects d cls person fieldname objs rm) =
     changed (visible d cls person fieldname rm) objs"
    by (rule update_subobjects_flag)
next
  assume H: "changed (visible d cls person fieldname rm) objs \<and>
    (cls = Person \<or> cls = Organization) \<and>
    fst (read_view cls person fieldname rm) = fst (related cls person fieldname)"
  let ?m = "related cls person fieldname"
  let ?rv = "read_view cls person fieldname rm"
  let ?d1 = "if count_qs d ?rv \<noteq> 0 then delete d ?rv else d"
  let ?d2 = "foldl (\<lambda>d obj. manager_create d ?m obj) ?d1 objs"
  have res: "fst (update_subobjects d cls person fieldname objs rm) = save ?d2 cls person"
    using H by (simp add: update_subobjects_changed)
  have ne: "fst ?m \<noteq> cls"
    using H related_not_owner by blast
  have d1: "table ?d1 T = filter (\<lambda>r. \<not> (T = fst ?m \<and> snd ?rv d r)) (table d T)" for T
    unfolding table_delete_if using H by simp
  have d2: "table ?d2 T = filter (\<lambda>r. \<not> (T = fst ?m \<and> snd ?rv d r)) (table d T) @
           (if T = fst ?m
            then map (\<lambda>(k, obj). snd (new_row ?m k obj)) (enumerate (next_key d) objs)
            else [])" for T
    unfolding table_foldl_manager_create d1 next_key_delete_if ..
  have own: "table ?d2 cls = table d cls"
    unfolding d2 using ne by simp
  show "\<forall>T. T \<noteq> cls \<longrightarrow>
         table (fst (update_subobjects d cls person fieldname objs rm)) T =
           filter (\<lambda>r. \<not> (T = fst ?m \<and> snd ?rv d r)) (table d T) @
           (if T = fst ?m
            then map (\<lambda>(k, obj). snd (new_row ?m k obj)) (enumerate (next_key d) objs)
            else [])"
    unfolding res
  proof (intro allI impI)
    fix T :: model
    assume "T \<noteq> cls"
    then have "table (save ?d2 cls person) T = table ?d2 T"
      by (rule table_save_other)
    also have "\<dots> = filter (\<lambda>r. \<not> (T = fst ?m \<and> snd ?rv d r)) (table d T) @
           (if T = fst ?m
            then map (\<lambda>(k, obj). snd (new_row ?m k obj)) (enumerate (next_key d) objs)
            else [])"
      by (rule d2)
    finally show "table (save ?d2 cls person) T =
           filter (\<lambda>r. \<not> (T = fst ?m \<and> snd ?rv d r)) (table d T) @
           (if T = fst ?m
            then map (\<lambda>(k, obj). snd (new_row ?m k obj)) (enumerate (next_key d) objs)
            else [])" .
  qed
  show "filter (\<lambda>r. map_of r ''id'' \<noteq> map_of person ''id'')
        (table (fst (update_subobjects d cls person fieldname objs rm)) cls) =
      filter (\<lambda>r. map_of r ''id'' \<noteq> map_of person ''id'') (table d cls)"
    by (simp only: res table_save_others own)
  show "filter (\<lambda>r. map_of r ''id'' = map_of person ''id'')
        (table (fst (update_subobjects d cls person fieldname objs rm)) cls) =
      replicate (max 1 (length (filter (\<lambda>r. map_of r ''id'' = map_of person ''id'') (table d cls))))
        (AList.update ''updated_at'' (Stamp (Suc (clock d))) person)"
    by (simp only: res table_save_owner own clock_foldl_manager_create next_key_delete_if)
  show "clock (fst (update_subobjects d cls person fieldname objs rm)) = Suc (clock d)"
    by (simp add: res)
  show "next_key (fst (update_subobjects d cls person fieldname objs rm)) = next_key d + length objs"
    by (simp add: res)
qed

lemma not_changed_iff:
  "\<not> changed stored objs \<longleftrightarrow>
     length stored = length objs \<and> (\<forall>r \<in> set stored. \<exists>obj \<in> set objs. matches r obj)"
  by (auto simp: changed_def list_ex_iff list_all_iff)

text \<open>
  The example for C2: two stored links, one desired link. The count differs, both stored
  rows are deleted, the desired link is inserted under key 2 and the person is stamped.
\<close>

theorem update_subobjects_witness:
  "snd (update_subobjects ex_store Person ex_person ''links''
          [[(''url'', Str ''https://example.com/jane'')]] None) \<and>
   table (fst (update_subobjects ex_store Person ex_person ''links''
          [[(''url'', Str ''https://example.com/jane'')]] None)) (Child Person ''links'') =
     [[(''person'', Str ''p1''), (''url'', Str ''https://example.com/jane''), (''id'', Key 2)]] \<and>
   table (fst (update_subobjects ex_store Person ex_person ''links''
          [[(''url'', Str ''https://example.com/jane'')]] None)) Person =
     [[(''id'', Str ''p1''), (''name'', Str ''Jane Smith''), (''updated_at'', Stamp 1)]]"
proof -
  let ?objs = "[[(''url'', Str ''https://example.com/jane'')]]"
  have rv: "read_view Person ex_person ''links'' None = all_of (related Person ex_person ''links'')"
    by (simp add: read_view_def)
  have vis: "visible ex_store Person ex_person ''links'' None =
      [ex_link ''https://example.com/jane'' 0, ex_link ''https://example.com/jane'' 1]"
    by (simp add: visible_def read_view_def related_def all_of_def qs_rows_def table_def ex_store_def
        ex_person_def ex_link_def pk_def)
  have ch: "changed (visible ex_store Person ex_person ''links'' None) ?objs"
    by (simp add: vis changed_def)
  have hyp: "changed (visible ex_store Person ex_person ''links'' None) ?objs \<and>
      (Person = Person \<or> Person = Organization) \<and>
      fst (read_view Person ex_person ''links'' None) = fst (related Person ex_person ''links'')"
    using ch by (simp add: read_view_def all_of_def related_def)
  note th = update_subobjects_replaces_on_change
      [of ex_store Person ex_person "''links''" ?objs None]
  from th hyp have flag: "snd (update_subobjects ex_store Person ex_person ''links'' ?objs None)"
    by blast
  from th hyp have links:
    "table (fst (update_subobjects ex_store Person ex_person ''links'' ?objs None))
        (Child Person ''links'') =
      filter (\<lambda>r. \<not> (Child Person ''links'' = fst (related Person ex_person ''links'') \<and>
                        snd (read_view Person ex_person ''links'' None) ex_store r))
        (table ex_store (Child Person ''links'')) @
      (if Child Person ''links'' = fst (related Person ex_person ''links'')
       then map (\<lambda>(k, obj). snd (new_row (related Person ex_person ''links'') k obj))
              (enumerate (next_key ex_store) ?objs)
       else [])"
    by blast
  have links': "table (fst (update_subobjects ex_store Person ex_person ''links'' ?objs None))
        (Child Person ''links'') =
      [[(''person'', Str ''p1''), (''url'', Str ''https://example.com/jane''), (''id'', Key 2)]]"
    unfolding links
    by (simp add: read_view_def related_def all_of_def table_def ex_store_def ex_person_def
        ex_link_def pk_def new_row_def)
  from th hyp have others:
    "filter (\<lambda>r. map_of r ''id'' \<noteq> map_of ex_person ''id'')
        (table (fst (update_subobjects ex_store Person ex_person ''links'' ?objs None)) Person) =
      filter (\<lambda>r. map_of r ''id'' \<noteq> map_of ex_person ''id'') (table ex_store Person)"
    and owner:
    "filter (\<lambda>r. map_of r ''id'' = map_of ex_person ''id'')
        (table (fst (update_subobjects ex_store Person ex_person ''links'' ?objs None)) Person) =
      replicate (max 1 (length (filter (\<lambda>r. map_of r ''id'' = map_of ex_person ''id'')
         (table ex_store Person))))
        (AList.update ''updated_at'' (Stamp (Suc (clock ex_store))) ex_person)"
    by blast+
  have o2: "filter (\<lambda>r. map_of r ''id'' \<noteq> map_of ex_person ''id'')
        (table (fst (update_subobjects ex_store Person ex_person ''links'' ?objs None)) Person) = []"
    unfolding others by (simp add: table_def ex_store_def ex_person_def)
  have o3: "filter (\<lambda>r. map_of r ''id'' = map_of ex_person ''id'')
        (table (fst (update_subobjects ex_store Person ex_person ''links'' ?objs None)) Person) =
      [[(''id'', Str ''p1''), (''name'', Str ''Jane Smith''), (''updated_at'', Stamp 1)]]"
    unfolding owner by (simp add: table_def ex_store_def ex_person_def)
  have split: "xs = filter P xs" if "filter (\<lambda>r. \<not> P r) xs = []" for P and xs :: "item list"
    using that by (induction xs) (auto split: if_splits)
  have "table (fst (update_subobjects ex_store Person ex_person ''links'' ?objs None)) Person =
      [[(''id'', Str ''p1''), (''name'', Str ''Jane Smith''), (''updated_at'', Stamp 1)]]"
    using split [OF o2] o3 by simp
  with flag links' show ?thesis by blast
qed

text \<open>
  Claim C9. When the stored items under the read view are as many as the desired items and
  each of them matches some desired item, \<^verbatim>\<open>update_subobjects\<close> reports no update and
  leaves the store as it is; no desired item has to be matched, and no pairing one to one
  is asked for. So a desired list that has the same length and the same items as one that
  was no update (a reordering, or other multiplicities) is no update either.
\<close>

theorem update_subobjects_compares_membership:
  "(length (visible d cls person fieldname rm) = length objs \<and>
    (\<forall>r \<in> set (visible d cls person fieldname rm). \<exists>obj \<in> set objs. matches r obj) \<longrightarrow>
      update_subobjects d cls person fieldname objs rm = (d, False)) \<and>
   (update_subobjects d cls person fieldname objs rm = (d, False) \<and>
    set objs' = set objs \<and> length objs' = length objs \<longrightarrow>
      update_subobjects d cls person fieldname objs' rm = (d, False))"
proof (intro conjI impI)
  assume "length (visible d cls person fieldname rm) = length objs \<and>
    (\<forall>r \<in> set (visible d cls person fieldname rm). \<exists>obj \<in> set objs. matches r obj)"
  then have "\<not> changed (visible d cls person fieldname rm) objs"
    by (simp add: not_changed_iff)
  then show "update_subobjects d cls person fieldname objs rm = (d, False)"
    by (rule update_subobjects_unchanged)
next
  assume H: "update_subobjects d cls person fieldname objs rm = (d, False) \<and>
    set objs' = set objs \<and> length objs' = length objs"
  then have "\<not> changed (visible d cls person fieldname rm) objs"
    using update_subobjects_flag [of d cls person fieldname objs rm] by simp
  with H have "\<not> changed (visible d cls person fieldname rm) objs'"
    by (simp add: not_changed_iff)
  then show "update_subobjects d cls person fieldname objs' rm = (d, False)"
    by (rule update_subobjects_unchanged)
qed

text \<open>
  The example for C9: the two stored links have the same url; the desired list holds that
  url and another one that is not stored. Both orders of it are reported as no update.
\<close>

theorem update_subobjects_compares_membership_witness:
  "update_subobjects ex_store Person ex_person ''links''
     [[(''url'', Str ''https://example.com/jane'')], [(''url'', Str ''https://example.com/extra'')]]
     None = (ex_store, False) \<and>
   update_subobjects ex_store Person ex_person ''links''
     [[(''url'', Str ''https://example.com/extra'')], [(''url'', Str ''https://example.com/jane'')]]
     None = (ex_store, False)"
proof -
  let ?objs = "[[(''url'', Str ''https://example.com/jane'')],
                [(''url'', Str ''https://example.com/extra'')]]"
  let ?objs' = "[[(''url'', Str ''https://example.com/extra'')],
                 [(''url'', Str ''https://example.com/jane'')]]"
  have vis: "visible ex_store Person ex_person ''links'' None =
      [ex_link ''https://example.com/jane'' 0, ex_link ''https://example.com/jane'' 1]"
    by (simp add: visible_def read_view_def related_def all_of_def qs_rows_def table_def
        ex_store_def ex_person_def ex_link_def pk_def)
  have hyp: "length (visible ex_store Person ex_person ''links'' None) = length ?objs \<and>
      (\<forall>r \<in> set (visible ex_store Person ex_person ''links'' None). \<exists>obj \<in> set ?objs. matches r obj)"
    by (simp add: vis matches_def agrees_def ex_link_def)
  note th = update_subobjects_compares_membership
      [of ex_store Person ex_person "''links''" None ?objs ?objs']
  from th hyp have first: "update_subobjects ex_store Person ex_person ''links'' ?objs None =
      (ex_store, False)"
    by blast
  have "set ?objs' = set ?objs \<and> length ?objs' = length ?objs"
    by auto
  with th first have "update_subobjects ex_store Person ex_person ''links'' ?objs' None =
      (ex_store, False)"
    by blast
  with first show ?thesis by blast
qed

section \<open>Properties of \<^verbatim>\<open>get_update_or_create\<close>\<close>

lemma select_keys_Inr:
  "set lookup_keys \<subseteq> fst ` set data \<Longrightarrow>
   \<exists>kw. select_keys data lookup_keys = Inr kw \<and> map fst kw = lookup_keys \<and>
        (\<forall>k \<in> set lookup_keys. map_of kw k = map_of data k)"
proof (induction lookup_keys)
  case Nil
  then show ?case by simp
next
  case (Cons k ks)
  then obtain kw where kw: "select_keys data ks = Inr kw" "map fst kw = ks"
      "\<forall>k \<in> set ks. map_of kw k = map_of data k"
    by auto
  from Cons.prems obtain v where v: "map_of data k = Some v"
    by (cases "map_of data k") (auto simp: map_of_eq_None_iff)
  show ?case
    using kw v by (auto simp: getitem_def)
qed

lemma get_stored_under:
  assumes "set lookup_keys \<subseteq> fst ` set data"
  obtains kw where "select_keys data lookup_keys = Inr kw"
    and "qs_rows d (filter_qs (objects cls) kw) = stored_under d cls data lookup_keys"
proof -
  from select_keys_Inr [OF assms] obtain kw where kw: "select_keys data lookup_keys = Inr kw"
      "map fst kw = lookup_keys" "\<forall>k \<in> set lookup_keys. map_of kw k = map_of data k"
    by blast
  have "agrees r kw = list_all (\<lambda>k. map_of r k = map_of data k) lookup_keys" for r
    using kw(2,3) by (auto simp: agrees_def list_all_iff)
  then have "qs_rows d (filter_qs (objects cls) kw) = stored_under d cls data lookup_keys"
    by (simp add: qs_rows_def filter_qs_def objects_def stored_under_def)
  with kw(1) that show thesis by blast
qed

lemma set_fields_fold:
  "\<forall>f \<in> fst ` set data. map_of obj f \<noteq> None \<Longrightarrow>
   \<exists>u. set_fields obj data u0 =
     Inr (fold (\<lambda>kv ob. AList.update (fst kv) (snd kv) ob) data obj, u)"
proof (induction data arbitrary: obj u0)
  case Nil
  then show ?case by simp
next
  case (Cons fv data)
  obtain f v where fv: "fv = (f, v)" by (cases fv)
  from Cons.prems fv obtain cur where cur: "map_of obj f = Some cur" by auto
  have same: "AList.update f cur obj = obj"
    using cur by (induction obj) (auto split: if_splits)
  have pres: "\<forall>g \<in> fst ` set data. map_of (AList.update f v obj) g \<noteq> None"
    using Cons.prems by (auto simp: update_conv')
  show ?case
  proof (cases "cur = v")
    case True
    with Cons.IH [of obj u0] Cons.prems cur fv same show ?thesis by auto
  next
    case False
    with Cons.IH [OF pres, of True] cur fv show ?thesis by auto
  qed
qed

lemma set_fields_flag:
  "distinct (map fst data) \<Longrightarrow> \<forall>f \<in> fst ` set data. map_of obj f \<noteq> None \<Longrightarrow>
   set_fields obj data u0 = Inr (obj', u) \<Longrightarrow> u = (u0 \<or> differs obj data)"
proof (induction data arbitrary: obj u0)
  case Nil
  then show ?case by (simp add: differs_def)
next
  case (Cons fv data)
  obtain f v where fv: "fv = (f, v)" by (cases fv)
  from Cons.prems fv obtain cur where cur: "map_of obj f = Some cur" by auto
  from Cons.prems fv have nf: "f \<notin> fst ` set data" and dist: "distinct (map fst data)"
    by auto
  have tail: "differs obj (fv # data) = (cur \<noteq> v \<or> differs obj data)"
    using nf cur fv by (auto simp: differs_def list_ex_iff image_iff)
  show ?case
  proof (cases "cur = v")
    case True
    from Cons.prems(3) cur fv True have "set_fields obj data u0 = Inr (obj', u)" by simp
    from Cons.IH [OF dist _ this] Cons.prems(2) have "u = (u0 \<or> differs obj data)" by auto
    with tail True show ?thesis by simp
  next
    case False
    have pres: "\<forall>g \<in> fst ` set data. map_of (AList.update f v obj) g \<noteq> None"
      using Cons.prems(2) by (auto simp: update_conv')
    from Cons.prems(3) cur fv False have "set_fields (AList.update f v obj) data True = Inr (obj', u)"
      by simp
    from Cons.IH [OF dist pres this] have "u" by simp
    with tail False show ?thesis by simp
  qed
qed

lemma map_of_fold_update:
  "distinct (map fst data) \<Longrightarrow>
   map_of (fold (\<lambda>kv ob. AList.update (fst kv) (snd kv) ob) data obj) = map_of obj ++ map_of data"
proof (induction data arbitrary: obj)
  case Nil
  then show ?case by simp
next
  case (Cons fv data)
  obtain f v where fv: "fv = (f, v)" by (cases fv)
  from Cons.prems fv have nf: "f \<notin> fst ` set data" and dist: "distinct (map fst data)"
    by auto
  have none: "map_of data f = None"
    using nf by (simp add: map_of_eq_None_iff)
  have "map_of (fold (\<lambda>kv ob. AList.update (fst kv) (snd kv) ob) (fv # data) obj) x =
        (map_of obj ++ map_of (fv # data)) x" for x
    using Cons.IH [OF dist, of "AList.update f v obj"] fv none
    by (cases "x = f") (auto simp: update_conv' map_add_def split: option.splits)
  then show ?case by (rule ext)
qed

lemma table_create:
  "table (fst (create d cls data)) T = table d T @ (if T = cls then [snd (create d cls data)] else [])"
  by (simp add: create_def Let_def table_def)

text \<open>
  Claim C3. With the lookup keys among the fields of the mapping: when no row has the
  mapping's values under the lookup keys, \<^verbatim>\<open>get_update_or_create\<close> raises nothing,
  appends one row that has every given field and touches no other table, and returns it
  with \<open>created\<close> true and \<open>updated\<close> false. When exactly one row has them (and it has
  every field of the mapping, as a stored row has), the returned object is that row with
  every field of the mapping set to the given value; it is saved when some field differed
  and the store is left as it is when none did; \<open>created\<close> is false and \<open>updated\<close> says
  whether some field differed.
\<close>

theorem get_update_or_create_contract:
  "(set lookup_keys \<subseteq> fst ` set data \<and> stored_under d cls data lookup_keys = [] \<longrightarrow>
      get_update_or_create d cls data lookup_keys =
        Inr (fst (create d cls data), snd (create d cls data), True, False) \<and>
      table (fst (create d cls data)) cls = table d cls @ [snd (create d cls data)] \<and>
      (\<forall>T. T \<noteq> cls \<longrightarrow> table (fst (create d cls data)) T = table d T) \<and>
      (\<forall>f \<in> fst ` set data. map_of (snd (create d cls data)) f = map_of data f)) \<and>
   (set lookup_keys \<subseteq> fst ` set data \<and> stored_under d cls data lookup_keys = [r] \<and>
    distinct (map fst data) \<and> (\<forall>f \<in> fst ` set data. map_of r f \<noteq> None) \<longrightarrow>
      get_update_or_create d cls data lookup_keys =
        Inr (if differs r data
             then save d cls (fold (\<lambda>kv ob. AList.update (fst kv) (snd kv) ob) data r)
             else d,
             fold (\<lambda>kv ob. AList.update (fst kv) (snd kv) ob) data r, False, differs r data) \<and>
      map_of (fold (\<lambda>kv ob. AList.update (fst kv) (snd kv) ob) data r) = map_of r ++ map_of data)"
proof (intro conjI impI)
  assume H: "set lookup_keys \<subseteq> fst ` set data \<and> stored_under d cls data lookup_keys = []"
  then obtain kw where kw: "select_keys data lookup_keys = Inr kw"
      "qs_rows d (filter_qs (objects cls) kw) = stored_under d cls data lookup_keys"
    using get_stored_under [of lookup_keys data d cls] by blast
  with H have "get d (objects cls) kw = Inl (DoesNotExist cls)"
    by (simp add: get_def objects_def)
  with kw(1) show "get_update_or_create d cls data lookup_keys =
        Inr (fst (create d cls data), snd (create d cls data), True, False)"
    by (simp add: get_update_or_create_def split: prod.splits)
  show "table (fst (create d cls data)) cls = table d cls @ [snd (create d cls data)]"
    by (simp add: table_create)
  show "\<forall>T. T \<noteq> cls \<longrightarrow> table (fst (create d cls data)) T = table d T"
    by (simp add: table_create)
  show "\<forall>f \<in> fst ` set data. map_of (snd (create d cls data)) f = map_of data f"
    by (auto simp: create_def Let_def map_add_def map_of_eq_None_iff image_iff
        split: option.splits)
next
  assume H: "set lookup_keys \<subseteq> fst ` set data \<and> stored_under d cls data lookup_keys = [r] \<and>
    distinct (map fst data) \<and> (\<forall>f \<in> fst ` set data. map_of r f \<noteq> None)"
  let ?obj = "fold (\<lambda>kv ob. AList.update (fst kv) (snd kv) ob) data r"
  from H obtain kw where kw: "select_keys data lookup_keys = Inr kw"
      "qs_rows d (filter_qs (objects cls) kw) = stored_under d cls data lookup_keys"
    using get_stored_under [of lookup_keys data d cls] by blast
  with H have g: "get d (objects cls) kw = Inr r"
    by (simp add: get_def)
  from H set_fields_fold [of data r False] obtain u where u: "set_fields r data False = Inr (?obj, u)"
    by blast
  from H set_fields_flag [OF _ _ u] have "u = differs r data"
    by simp
  with u kw(1) g show "get_update_or_create d cls data lookup_keys =
        Inr (if differs r data then save d cls ?obj else d, ?obj, False, differs r data)"
    by (simp add: get_update_or_create_def)
  from H show "map_of ?obj = map_of r ++ map_of data"
    by (simp add: map_of_fold_update)
qed

text \<open>
  The example for C3: a person that is not stored is created; the stored person, given a
  new name, is updated and saved.
\<close>

theorem get_update_or_create_witness:
  "get_update_or_create ex_store Person [(''id'', Str ''p2''), (''name'', Str ''John Doe'')] [''id''] =
     Inr (ex_store\<lparr>rows := rows ex_store @
            [(Person, [(''id'', Str ''p2''), (''name'', Str ''John Doe''), (''id'', Key 2),
                       (''created_at'', Stamp 1), (''updated_at'', Stamp 1)])],
            next_key := 3, clock := 1\<rparr>,
          [(''id'', Str ''p2''), (''name'', Str ''John Doe''), (''id'', Key 2),
           (''created_at'', Stamp 1), (''updated_at'', Stamp 1)], True, False) \<and>
   get_update_or_create ex_store Person [(''id'', Str ''p1''), (''name'', Str ''Jane Doe'')] [''id''] =
     Inr (save ex_store Person [(''id'', Str ''p1''), (''name'', Str ''Jane Doe'')],
          [(''id'', Str ''p1''), (''name'', Str ''Jane Doe'')], False, True)"
proof -
  let ?new = "[(''id'', Str ''p2''), (''name'', Str ''John Doe'')]"
  let ?upd = "[(''id'', Str ''p1''), (''name'', Str ''Jane Doe'')]"
  have h1: "set [''id''] \<subseteq> fst ` set ?new \<and> stored_under ex_store Person ?new [''id''] = []"
    by (simp add: stored_under_def table_def ex_store_def ex_person_def)
  have h2: "set [''id''] \<subseteq> fst ` set ?upd \<and> stored_under ex_store Person ?upd [''id''] = [ex_person] \<and>
      distinct (map fst ?upd) \<and> (\<forall>f \<in> fst ` set ?upd. map_of ex_person f \<noteq> None)"
    by (simp add: stored_under_def table_def ex_store_def ex_person_def)
  from get_update_or_create_contract [of "[''id'']" ?new ex_store Person ex_person] h1
  have "get_update_or_create ex_store Person ?new [''id''] =
      Inr (fst (create ex_store Person ?new), snd (create ex_store Person ?new), True, False)"
    by blast
  then have first: "get_update_or_create ex_store Person ?new [''id''] =
     Inr (ex_store\<lparr>rows := rows ex_store @
            [(Person, [(''id'', Str ''p2''), (''name'', Str ''John Doe''), (''id'', Key 2),
                       (''created_at'', Stamp 1), (''updated_at'', Stamp 1)])],
            next_key := 3, clock := 1\<rparr>,
          [(''id'', Str ''p2''), (''name'', Str ''John Doe''), (''id'', Key 2),
           (''created_at'', Stamp 1), (''updated_at'', Stamp 1)], True, False)"
    by (simp add: create_def Let_def ex_store_def)
  from get_update_or_create_contract [of "[''id'']" ?upd ex_store Person ex_person] h2
  have "get_update_or_create ex_store Person ?upd [''id''] =
        Inr (if differs ex_person ?upd
             then save ex_store Person (fold (\<lambda>kv ob. AList.update (fst kv) (snd kv) ob) ?upd ex_person)
             else ex_store,
             fold (\<lambda>kv ob. AList.update (fst kv) (snd kv) ob) ?upd ex_person, False,
             differs ex_person ?upd)"
    by blast
  then have second: "get_update_or_create ex_store Person ?upd [''id''] =
     Inr (save ex_store Person ?upd, ?upd, False, True)"
    by (simp add: differs_def ex_person_def)
  from first second show ?thesis by blast
qed

section \<open>Properties of \<^verbatim>\<open>sort_organizations\<close>\<close>

text \<open>One step of the pass: the head of the snapshot either moves or stays.\<close>

lemma sort_pass_step:
  assumes "sort_pass ((org, filename) # snap) orgs seen order = Inr r"
  obtains (moved) s i where "map_of org ''parent'' = Some (Str s)"
      and "startswith s ''ocd-organization'' \<longrightarrow> Str s \<in> seen"
      and "map_of org ''id'' = Some i"
      and "sort_pass snap (remove1 (org, filename) orgs) (insert i seen) (order @ [(org, filename)]) = Inr r"
    | (kept) s where "map_of org ''parent'' = Some (Str s)"
      and "startswith s ''ocd-organization''" and "Str s \<notin> seen"
      and "sort_pass snap orgs seen order = Inr r"
  using assms
  by (auto simp: getitem_def split: sum.splits val.splits if_splits option.splits)

lemma sort_pass_mset:
  "mset snap \<subseteq># mset orgs \<Longrightarrow> sort_pass snap orgs seen order = Inr (orgs', seen', order') \<Longrightarrow>
   mset orgs' + mset order' = mset orgs + mset order"
proof (induction snap arbitrary: orgs seen order)
  case Nil
  then show ?case by simp
next
  case (Cons x snap)
  obtain org filename where x: "x = (org, filename)" by (cases x)
  from Cons.prems(1) have xin: "x \<in># mset orgs" and rest: "mset snap \<subseteq># mset orgs - {#x#}"
    by (auto simp: insert_subset_eq_iff)
  from rest have rest': "mset snap \<subseteq># mset orgs"
    by (meson diff_subset_eq_self subset_mset.order_trans)
  from Cons.prems(2) [unfolded x] show ?case
  proof (cases rule: sort_pass_step)
    case (moved s i)
    have "mset snap \<subseteq># mset (remove1 (org, filename) orgs)"
      using rest x by simp
    from Cons.IH [OF this moved(4)] xin x show ?thesis by simp
  next
    case (kept s)
    from Cons.IH [OF rest' kept(4)] show ?thesis .
  qed
qed

lemma sort_pass_no_assertion:
  "sort_pass snap orgs seen order = Inl e \<Longrightarrow> e \<noteq> AssertionError"
  by (induction snap orgs seen order rule: sort_pass.induct)
     (auto simp: getitem_def split: sum.splits val.splits if_splits option.splits)

lemma sort_loop_result:
  assumes "sort_loop orgs seen order = Some res"
  shows "case res of Inl e \<Rightarrow> e \<noteq> AssertionError | Inr out \<Rightarrow> mset out = mset orgs + mset order"
proof (rule sort_loop.raw_induct
    [where P = "\<lambda>orgs seen order res.
       case res of Inl e \<Rightarrow> e \<noteq> AssertionError | Inr out \<Rightarrow> mset out = mset orgs + mset order",
     OF _ assms])
  fix f orgs seen order res
  assume IH: "\<And>orgs seen order res. f orgs seen order = Some res \<Longrightarrow>
      (case res of Inl e \<Rightarrow> e \<noteq> AssertionError | Inr out \<Rightarrow> mset out = mset orgs + mset order)"
    and body: "(if orgs = [] then Some (Inr order)
      else case sort_pass orgs orgs seen order of Inl e \<Rightarrow> Some (Inl e)
           | Inr st \<Rightarrow> f (fst st) (fst (snd st)) (snd (snd st))) = Some res"
  show "case res of Inl e \<Rightarrow> e \<noteq> AssertionError | Inr out \<Rightarrow> mset out = mset orgs + mset order"
  proof (cases "orgs = []")
    case True
    with body show ?thesis by auto
  next
    case False
    show ?thesis
    proof (cases "sort_pass orgs orgs seen order")
      case (Inl e)
      with body False sort_pass_no_assertion [OF Inl] show ?thesis by auto
    next
      case (Inr st)
      obtain orgs' seen' order' where st: "st = (orgs', seen', order')" by (cases st) auto
      from sort_pass_mset [OF _ Inr [unfolded st]]
      have eq: "mset orgs' + mset order' = mset orgs + mset order" by simp
      from body False Inr st have "f orgs' seen' order' = Some res" by simp
      from IH [OF this] eq show ?thesis by (auto split: sum.splits)
    qed
  qed
qed

lemma sort_organizations_no_assertion:
  "sort_organizations orgs \<noteq> Some (Inl AssertionError)"
proof
  assume A: "sort_organizations orgs = Some (Inl AssertionError)"
  show False
  proof (cases "sort_loop orgs {} []")
    case None
    with A show ?thesis by (simp add: sort_organizations_def)
  next
    case (Some res)
    show ?thesis
    proof (cases res)
      case (Inl e)
      with sort_loop_result [OF Some] have "e \<noteq> AssertionError" by simp
      with A Some Inl show ?thesis by (simp add: sort_organizations_def)
    next
      case (Inr out)
      with sort_loop_result [OF Some] have "mset out = mset orgs" by simp
      then have "length out = length orgs" by (metis size_mset)
      with A Some Inr show ?thesis by (simp add: sort_organizations_def)
    qed
  qed
qed

lemma sort_pass_blocked:
  "set snap \<subseteq> U \<Longrightarrow> blocked S U orgs seen \<Longrightarrow>
   sort_pass snap orgs seen order = Inr (orgs', seen', order') \<Longrightarrow> blocked S U orgs' seen'"
proof (induction snap arbitrary: orgs seen order)
  case Nil
  then show ?case by simp
next
  case (Cons x snap)
  obtain org filename where x: "x = (org, filename)" by (cases x)
  from Cons.prems(1) have xU: "x \<in> U" and snapU: "set snap \<subseteq> U" by auto
  from Cons.prems(3) [unfolded x] show ?case
  proof (cases rule: sort_pass_step)
    case (moved s i)
    have notS: "x \<notin> S"
    proof
      assume "x \<in> S"
      with Cons.prems(2) x moved(1,2) show False
        by (auto simp: blocked_def)
    qed
    have "blocked S U (remove1 (org, filename) orgs) (insert i seen)"
      unfolding blocked_def
    proof (intro conjI ballI)
      show "S \<noteq> {}" using Cons.prems(2) by (simp add: blocked_def)
      show "S \<subseteq> set (remove1 (org, filename) orgs)"
      proof
        fix y assume "y \<in> S"
        with Cons.prems(2) notS x have "y \<in> set orgs" "y \<noteq> (org, filename)"
          by (auto simp: blocked_def)
        then show "y \<in> set (remove1 (org, filename) orgs)"
          by (simp add: in_set_remove1)
      qed
      show "set (remove1 (org, filename) orgs) \<subseteq> U"
        using Cons.prems(2) set_remove1_subset [of "(org, filename)" orgs]
        by (auto simp: blocked_def)
      fix y assume yS: "y \<in> S"
      with Cons.prems(2) obtain t where t: "map_of (fst y) ''parent'' = Some (Str t)"
          "startswith t ''ocd-organization''" "Str t \<notin> seen"
          "\<forall>z \<in> U - S. map_of (fst z) ''id'' \<noteq> Some (Str t)"
        by (auto simp: blocked_def)
      from xU notS have "x \<in> U - S" by simp
      with t(4) have "map_of (fst x) ''id'' \<noteq> Some (Str t)" by (rule bspec)
      with x moved(3) have "i \<noteq> Str t" by auto
      with t show "\<exists>s. map_of (fst y) ''parent'' = Some (Str s) \<and>
          startswith s ''ocd-organization'' \<and> Str s \<notin> insert i seen \<and>
          (\<forall>z \<in> U - S. map_of (fst z) ''id'' \<noteq> Some (Str s))"
        by auto
    qed
    from Cons.IH [OF snapU this moved(4)] show ?thesis .
  next
    case (kept s)
    from Cons.IH [OF snapU Cons.prems(2) kept(4)] show ?thesis .
  qed
qed

lemma sort_loop_blocked:
  assumes "sort_loop orgs seen order = Some res"
  shows "blocked S U orgs seen \<longrightarrow> (\<exists>e. res = Inl e)"
proof (rule sort_loop.raw_induct
    [where P = "\<lambda>orgs seen order res. blocked S U orgs seen \<longrightarrow> (\<exists>e. res = Inl e)", OF _ assms])
  fix f orgs seen order res
  assume IH: "\<And>orgs seen order res. f orgs seen order = Some res \<Longrightarrow>
      blocked S U orgs seen \<longrightarrow> (\<exists>e. res = Inl e)"
    and body: "(if orgs = [] then Some (Inr order)
      else case sort_pass orgs orgs seen order of Inl e \<Rightarrow> Some (Inl e)
           | Inr st \<Rightarrow> f (fst st) (fst (snd st)) (snd (snd st))) = Some res"
  show "blocked S U orgs seen \<longrightarrow> (\<exists>e. res = Inl e)"
  proof
    assume B: "blocked S U orgs seen"
    then have ne: "orgs \<noteq> []" and sub: "set orgs \<subseteq> U"
      by (auto simp: blocked_def)
    show "\<exists>e. res = Inl e"
    proof (cases "sort_pass orgs orgs seen order")
      case (Inl e)
      with body ne show ?thesis by auto
    next
      case (Inr st)
      obtain orgs' seen' order' where st: "st = (orgs', seen', order')" by (cases st) auto
      from sort_pass_blocked [OF sub B Inr [unfolded st]] have B': "blocked S U orgs' seen'" .
      from body ne Inr st have "f orgs' seen' order' = Some res" by simp
      from IH [OF this] B' show ?thesis by simp
    qed
  qed
qed

lemma sort_pass_well_formed:
  "set snap \<subseteq> U \<Longrightarrow> well_formed U \<Longrightarrow> \<exists>r. sort_pass snap orgs seen order = Inr r"
proof (induction snap arbitrary: orgs seen order)
  case Nil
  then show ?case by simp
next
  case (Cons x snap)
  obtain org filename where x: "x = (org, filename)" by (cases x)
  from Cons.prems x obtain s i where "map_of org ''parent'' = Some (Str s)"
      "map_of org ''id'' = Some i" "hashable i"
    by (fastforce simp: well_formed_def)
  with Cons.IH Cons.prems x show ?case
    by (auto simp: getitem_def)
qed

lemma sort_pass_subset:
  "sort_pass snap orgs seen order = Inr (orgs', seen', order') \<Longrightarrow> set orgs' \<subseteq> set orgs"
proof (induction snap arbitrary: orgs seen order)
  case Nil
  then show ?case by simp
next
  case (Cons x snap)
  obtain org filename where x: "x = (org, filename)" by (cases x)
  from Cons.prems [unfolded x] show ?case
  proof (cases rule: sort_pass_step)
    case (moved s i)
    from Cons.IH [OF moved(4)] set_remove1_subset [of "(org, filename)" orgs]
    show ?thesis by blast
  next
    case (kept s)
    from Cons.IH [OF kept(4)] show ?thesis .
  qed
qed

lemma sort_loop_no_error:
  assumes "sort_loop orgs seen order = Some res"
  shows "set orgs \<subseteq> U \<and> well_formed U \<longrightarrow> (\<exists>out. res = Inr out)"
proof (rule sort_loop.raw_induct
    [where P = "\<lambda>orgs seen order res. set orgs \<subseteq> U \<and> well_formed U \<longrightarrow> (\<exists>out. res = Inr out)",
     OF _ assms])
  fix f orgs seen order res
  assume IH: "\<And>orgs seen order res. f orgs seen order = Some res \<Longrightarrow>
      set orgs \<subseteq> U \<and> well_formed U \<longrightarrow> (\<exists>out. res = Inr out)"
    and body: "(if orgs = [] then Some (Inr order)
      else case sort_pass orgs orgs seen order of Inl e \<Rightarrow> Some (Inl e)
           | Inr st \<Rightarrow> f (fst st) (fst (snd st)) (snd (snd st))) = Some res"
  show "set orgs \<subseteq> U \<and> well_formed U \<longrightarrow> (\<exists>out. res = Inr out)"
  proof
    assume W: "set orgs \<subseteq> U \<and> well_formed U"
    show "\<exists>out. res = Inr out"
    proof (cases "orgs = []")
      case True
      with body show ?thesis by auto
    next
      case False
      from sort_pass_well_formed [of orgs U orgs seen order] W
      obtain st where Inr: "sort_pass orgs orgs seen order = Inr st" by blast
      obtain orgs' seen' order' where st: "st = (orgs', seen', order')" by (cases st) auto
      from sort_pass_subset [OF Inr [unfolded st]] W have "set orgs' \<subseteq> U" by blast
      moreover from body False Inr st have "f orgs' seen' order' = Some res" by simp
      ultimately show ?thesis using IH W by blast
    qed
  qed
qed

lemma sort_organizations_blocked:
  assumes "blocked S (set orgs) orgs {}"
  shows "\<forall>out. sort_organizations orgs \<noteq> Some (Inr out)"
    and "well_formed (set orgs) \<Longrightarrow> sort_organizations orgs = None"
proof -
  have L: "\<exists>e. res = Inl e" if "sort_loop orgs {} [] = Some res" for res
    using sort_loop_blocked [OF that, of S "set orgs"] assms by simp
  show "\<forall>out. sort_organizations orgs \<noteq> Some (Inr out)"
  proof (intro allI notI)
    fix out assume A: "sort_organizations orgs = Some (Inr out)"
    then obtain res where res: "sort_loop orgs {} [] = Some res"
      by (cases "sort_loop orgs {} []") (auto simp: sort_organizations_def)
    from L [OF res] obtain e where "res = Inl e" by blast
    with A res show False by (simp add: sort_organizations_def)
  qed
  show "sort_organizations orgs = None" if W: "well_formed (set orgs)"
  proof (cases "sort_loop orgs {} []")
    case None
    then show ?thesis by (simp add: sort_organizations_def)
  next
    case (Some res)
    from L [OF Some] obtain e where "res = Inl e" by blast
    moreover from sort_loop_no_error [OF Some, of "set orgs"] W obtain out where "res = Inr out"
      by blast
    ultimately show ?thesis by simp
  qed
qed

text \<open>
  Claim C4 (the code does otherwise). The assertion after the loop can never fail: a run
  that leaves the loop has moved every record to the output. A batch with a blocked set
  (a cycle of parent references, or a parent id that no record of the batch has) never
  returns an order, and when its records are well formed the loop never ends.
\<close>

theorem sort_organizations_assertion_unreachable:
  "sort_organizations orgs \<noteq> Some (Inl AssertionError) \<and>
   (blocked S (set orgs) orgs {} \<longrightarrow>
      (\<forall>out. sort_organizations orgs \<noteq> Some (Inr out)) \<and>
      (well_formed (set orgs) \<longrightarrow> sort_organizations orgs = None))"
  using sort_organizations_no_assertion [of orgs] sort_organizations_blocked [of S orgs]
  by blast

text \<open>
  The two failing batches: two committees that are each other's parent, and a committee
  whose parent id is not in the batch. Neither run ends, with an error or without.
\<close>

theorem sort_organizations_loops_witness:
  "sort_organizations ex_cycle = None \<and> sort_organizations ex_orphan = None"
proof -
  have b1: "blocked (set ex_cycle) (set ex_cycle) ex_cycle {}"
    by (simp add: blocked_def ex_cycle_def startswith_def)
  have w1: "well_formed (set ex_cycle)"
    by (simp add: well_formed_def ex_cycle_def)
  have b2: "blocked {([(''id'', Str ''ocd-organization/c''),
                       (''parent'', Str ''ocd-organization/x'')], ''c.yml'')}
              (set ex_orphan) ex_orphan {}"
    by (auto simp: blocked_def ex_orphan_def startswith_def)
  have w2: "well_formed (set ex_orphan)"
    by (simp add: well_formed_def ex_orphan_def)
  from sort_organizations_assertion_unreachable [of ex_cycle "set ex_cycle"] b1 w1
  have "sort_organizations ex_cycle = None" by blast
  moreover
  from sort_organizations_assertion_unreachable
    [of ex_orphan "{([(''id'', Str ''ocd-organization/c''),
                      (''parent'', Str ''ocd-organization/x'')], ''c.yml'')}"] b2 w2
  have "sort_organizations ex_orphan = None" by blast
  ultimately show ?thesis by blast
qed

section \<open>Roles in \<^verbatim>\<open>load_person\<close>\<close>

lemma role_membership_unsupported:
  "map_of role ''type'' = Some t \<Longrightarrow> t \<notin> {Str ''upper'', Str ''lower'', Str ''legislature''} \<Longrightarrow>
   role_membership legacy_districts c d role = Inl ValueError"
  by (simp add: role_membership_def getitem_def)

lemma role_memberships_unsupported:
  "role \<in> set roles \<Longrightarrow> map_of role ''type'' = Some t \<Longrightarrow>
   t \<notin> {Str ''upper'', Str ''lower'', Str ''legislature''} \<Longrightarrow>
   role_memberships legacy_districts c d roles \<noteq> Inr res"
proof (induction roles arbitrary: c res)
  case Nil
  then show ?case by simp
next
  case (Cons r roles)
  show ?case
  proof (cases "r = role")
    case True
    with Cons.prems role_membership_unsupported [of role t legacy_districts c d]
    show ?thesis by simp
  next
    case False
    with Cons.prems have "role \<in> set roles" by simp
    from Cons.IH [OF this Cons.prems(2,3)]
    have IH: "role_memberships legacy_districts c' d roles \<noteq> Inr res'" for c' res' .
    show ?thesis
      using IH by (auto split: sum.splits prod.splits)
  qed
qed

lemma load_person_Inr_memberships:
  "load_person legacy_districts c d data = Inr res \<Longrightarrow>
   \<exists>d5 c' ms. person_memberships legacy_districts c d5 data = Inr (c', ms)"
  by (auto simp: load_person_def split: sum.splits prod.splits)

lemma person_memberships_Inr_roles:
  "person_memberships legacy_districts c d data = Inr res \<Longrightarrow>
   \<exists>roles c1 r. dicts_of TypeError (dict_get data ''roles'' (Seq [])) = Inr roles \<and>
     role_memberships legacy_districts c1 d roles = Inr r"
  by (auto simp: person_memberships_def split: sum.splits prod.splits)

text \<open>
  Claim C5 (the code does otherwise). A record with a role whose type is \<^verbatim>\<open>governor\<close> or
  \<^verbatim>\<open>mayor\<close> is never loaded: \<^verbatim>\<open>load_person\<close> returns no result for it, whatever the
  store holds.
\<close>

theorem load_person_rejects_executive_roles:
  "dicts_of TypeError (dict_get data ''roles'' (Seq [])) = Inr roles \<and> role \<in> set roles \<and>
   map_of role ''type'' = Some (Str t) \<and> (t = ''governor'' \<or> t = ''mayor'') \<longrightarrow>
     (\<forall>res. load_person legacy_districts c d data \<noteq> Inr res)"
proof (intro impI allI notI)
  fix res
  assume H: "dicts_of TypeError (dict_get data ''roles'' (Seq [])) = Inr roles \<and> role \<in> set roles \<and>
   map_of role ''type'' = Some (Str t) \<and> (t = ''governor'' \<or> t = ''mayor'')"
    and L: "load_person legacy_districts c d data = Inr res"
  from load_person_Inr_memberships [OF L] obtain d5 c' ms where
    "person_memberships legacy_districts c d5 data = Inr (c', ms)" by blast
  from person_memberships_Inr_roles [OF this] H obtain c1 r where
    R: "role_memberships legacy_districts c1 d5 roles = Inr r" by auto
  from H have "Str t \<notin> {Str ''upper'', Str ''lower'', Str ''legislature''}" by auto
  with role_memberships_unsupported [of role roles "Str t" legacy_districts c1 d5 r] H R
  show False by blast
qed

lemma ex_governor_roles:
  "dicts_of TypeError (dict_get ex_governor ''roles'' (Seq [])) =
     Inr [[(''type'', Str ''governor''), (''jurisdiction'', ex_jurisdiction)]]"
  by (simp add: ex_governor_def dict_get_def)

lemma ex_governor_memberships:
  "person_memberships ex_legacy [] d ex_governor = Inl ValueError"
  by (simp add: person_memberships_def ex_governor_def dict_get_def role_membership_def
      getitem_def)

lemma ex_nc_person: "table ex_nc Person = [ex_jane_row]"
  by (simp add: table_def ex_nc_def ex_orgs_def)

lemma ex_governor_upsert:
  "person_fields ex_governor = Inr (take 10 ex_jane_row) \<and>
   get_update_or_create ex_nc Person (take 10 ex_jane_row) [''id''] =
     Inr (ex_nc, ex_jane_row, False, False)"
  by (simp add: person_fields_def ex_governor_def getitem_def dict_get_def ex_jane_row_def
      get_update_or_create_def get_def qs_rows_def filter_qs_def objects_def agrees_def
      ex_nc_person [unfolded ex_jane_row_def])

lemma update_subobjects_nothing:
  "visible d cls obj fieldname rm = [] \<Longrightarrow> update_subobjects d cls obj fieldname [] rm = (d, False)"
  by (rule update_subobjects_unchanged) (simp add: changed_def)

lemma ex_nc_children: "table ex_nc (Child Person fieldname) = []"
  by (simp add: table_def ex_nc_def ex_orgs_def)

lemma ex_nc_child_view:
  "fieldname \<noteq> ''memberships'' \<Longrightarrow> fieldname \<noteq> ''posts'' \<Longrightarrow>
   visible ex_nc Person obj fieldname None = []"
  by (simp add: visible_def read_view_def related_def all_of_def qs_rows_def ex_nc_children)

lemma ex_governor_load: "load_person ex_legacy [] ex_nc ex_governor = Inl ValueError"
proof -
  have f: "dict_get ex_governor ''other_names'' (Seq []) = Seq []"
      "dict_get ex_governor ''links'' (Seq []) = Seq []"
      "dict_get ex_governor ''sources'' (Seq []) = Seq []"
      "person_identifiers ex_governor = Inr []"
      "person_contact_details ex_governor = Inr []"
    by (simp_all add: ex_governor_def dict_get_def person_identifiers_def
        person_contact_details_def)
  show ?thesis
    by (simp add: load_person_def ex_governor_upsert update_from_def f update_subobjects_nothing
        ex_nc_child_view ex_governor_memberships)
qed

theorem load_person_governor_witness:
  "(\<forall>res. load_person ex_legacy [] ex_nc ex_governor \<noteq> Inr res) \<and>
   load_person ex_legacy [] ex_nc ex_governor = Inl ValueError"
proof -
  have "dicts_of TypeError (dict_get ex_governor ''roles'' (Seq [])) =
          Inr [[(''type'', Str ''governor''), (''jurisdiction'', ex_jurisdiction)]] \<and>
        [(''type'', Str ''governor''), (''jurisdiction'', ex_jurisdiction)] \<in>
          set [[(''type'', Str ''governor''), (''jurisdiction'', ex_jurisdiction)]] \<and>
        map_of [(''type'', Str ''governor''), (''jurisdiction'', ex_jurisdiction)] ''type'' =
          Some (Str ''governor'') \<and> (''governor'' = ''governor'' \<or> ''governor'' = ''mayor'')"
    by (simp add: ex_governor_roles)
  with load_person_rejects_executive_roles
    [of ex_governor "[[(''type'', Str ''governor''), (''jurisdiction'', ex_jurisdiction)]]"
        "[(''type'', Str ''governor''), (''jurisdiction'', ex_jurisdiction)]" "''governor''"
        ex_legacy "[]" ex_nc]
  have "\<forall>res. load_person ex_legacy [] ex_nc ex_governor \<noteq> Inr res"
    by blast
  with ex_governor_load show ?thesis by blast
qed

section \<open>Properties of \<^verbatim>\<open>load_directory\<close> and \<^verbatim>\<open>to_database\<close>\<close>

lemma apply_merged_not_person:
  "type \<noteq> ''person'' \<Longrightarrow> merged \<noteq> [] \<Longrightarrow>
   apply_merged type d cls merged missing_ids = Inl NameError"
  by (cases merged) auto

text \<open>
  Claim C10. In a run for type \<^verbatim>\<open>"organization"\<close>, once the records are loaded and the
  lookup of merge targets has found at least one, \<^verbatim>\<open>load_directory\<close> raises
  \<^verbatim>\<open>NameError\<close>, whatever the purge flag: no reference is redirected and no stale row
  deleted. At the transaction's boundary the error is not the cancellation signal, so it
  is not caught.
\<close>

theorem organization_merge_raises_name_error:
  "(load_records legacy_districts c d files ''organization'' jurisdiction_id =
      Some (Inr (c', d1, cls, missing_ids)) \<and>
    find_merged d1 cls missing_ids = Inr merged \<and> merged \<noteq> [] \<longrightarrow>
      load_directory legacy_districts c d files ''organization'' jurisdiction_id purge =
        Some (Inl NameError)) \<and>
   (jurisdiction_of e abbr = Inr jurisdiction_id \<and>
    transaction_body e purge safe c d abbr jurisdiction_id = Some (Inl NameError) \<longrightarrow>
      sync_all e purge safe c d (abbr # rest) = Some (d, Uncaught NameError))"
proof (intro conjI impI)
  assume H: "load_records legacy_districts c d files ''organization'' jurisdiction_id =
      Some (Inr (c', d1, cls, missing_ids)) \<and>
    find_merged d1 cls missing_ids = Inr merged \<and> merged \<noteq> []"
  then have "apply_merged ''organization'' d1 cls merged missing_ids = Inl NameError"
    by (simp add: apply_merged_not_person)
  with H show "load_directory legacy_districts c d files ''organization'' jurisdiction_id purge =
        Some (Inl NameError)"
    by (simp add: load_directory_def)
next
  assume "jurisdiction_of e abbr = Inr jurisdiction_id \<and>
    transaction_body e purge safe c d abbr jurisdiction_id = Some (Inl NameError)"
  then show "sync_all e purge safe c d (abbr # rest) = Some (d, Uncaught NameError)"
    by simp
qed

lemma report_missing_Inr:
  "\<forall>i \<in> set ids. length (stored_under d cls [(''id'', i)] [''id'']) = 1 \<Longrightarrow>
   report_missing d cls ids = Inr ()"
proof (induction ids)
  case Nil
  then show ?case by simp
next
  case (Cons i ids)
  then have "length (stored_under d cls [(''id'', i)] [''id'']) = 1" by simp
  then obtain r where r: "stored_under d cls [(''id'', i)] [''id''] = [r]"
    by (cases "stored_under d cls [(''id'', i)] [''id'']") auto
  have "qs_rows d (filter_qs (objects cls) [(''id'', i)]) = stored_under d cls [(''id'', i)] [''id'']"
    by (simp add: qs_rows_def filter_qs_def objects_def stored_under_def agrees_def)
  with r have "get d (objects cls) [(''id'', i)] = Inr r"
    by (simp add: get_def)
  with Cons show ?case by simp
qed

lemma purge_or_cancel_no_purge:
  "missing_ids \<noteq> [] \<Longrightarrow> \<exists>e. purge_or_cancel d cls missing_ids False = Inl e"
  by (auto simp: purge_or_cancel_def split: sum.splits)

lemma purge_or_cancel_cancel:
  "missing_ids \<noteq> [] \<Longrightarrow>
   \<forall>i \<in> set missing_ids. length (stored_under d cls [(''id'', i)] [''id'']) = 1 \<Longrightarrow>
   purge_or_cancel d cls missing_ids False = Inl CancelTransaction"
  by (simp add: purge_or_cancel_def report_missing_Inr)

lemma purge_or_cancel_purge:
  "missing_ids \<noteq> [] \<Longrightarrow>
   purge_or_cancel d cls missing_ids True =
     Inr (d\<lparr>rows := filter (\<lambda>cr. \<not> (fst cr = cls \<and>
                (\<exists>i \<in> set missing_ids. map_of (snd cr) ''id'' = Some i))) (rows d)\<rparr>)"
proof -
  have "(case map_of r ''id'' of None \<Rightarrow> False | Some v \<Rightarrow> v \<in> set missing_ids) =
        (\<exists>i \<in> set missing_ids. map_of r ''id'' = Some i)" for r :: item
    by (auto split: option.splits)
  then show ?thesis if "missing_ids \<noteq> []"
    using that by (simp add: purge_or_cancel_def delete_def id_in_def)
qed

text \<open>
  Claim C6. When the records are loaded and the merges applied and ids are still missing:
  without the purge flag \<^verbatim>\<open>load_directory\<close> always raises, and raises the cancellation
  when each missing id is the key of one stored row; with the purge flag it returns the
  store without the rows of its model under the missing ids, and nothing else changed.
  An error in either directory leaves the transaction's block as that error, and a
  cancellation that leaves the block gives back the store the block started from and ends
  the run with \<^verbatim>\<open>sys.exit(1)\<close>.
\<close>

theorem missing_ids_cancel_or_purge:
  "(load_records legacy_districts c d files type jurisdiction_id =
      Some (Inr (c', d1, cls, missing_ids)) \<and>
    find_merged d1 cls missing_ids = Inr merged \<and>
    apply_merged type d1 cls merged missing_ids = Inr (d2, still_missing) \<and>
    still_missing \<noteq> [] \<longrightarrow>
      (\<exists>err. load_directory legacy_districts c d files type jurisdiction_id False =
                Some (Inl err)) \<and>
      ((\<forall>i \<in> set still_missing. length (stored_under d2 cls [(''id'', i)] [''id'']) = 1) \<longrightarrow>
         load_directory legacy_districts c d files type jurisdiction_id False =
           Some (Inl CancelTransaction)) \<and>
      load_directory legacy_districts c d files type jurisdiction_id True =
        Some (Inr (c', d2\<lparr>rows := filter (\<lambda>cr. \<not> (fst cr = cls \<and>
                (\<exists>i \<in> set still_missing. map_of (snd cr) ''id'' = Some i))) (rows d2)\<rparr>))) \<and>
   (create_juris_orgs_posts (metadata_of e) d0 jurisdiction_id = Inr dj \<and>
    load_directory (legacy_of e) c0 dj (person_files e abbr) ''person'' jurisdiction_id purge =
      Some (Inl err) \<longrightarrow>
      transaction_body e purge safe c0 d0 abbr jurisdiction_id = Some (Inl err)) \<and>
   (create_juris_orgs_posts (metadata_of e) d0 jurisdiction_id = Inr dj \<and>
    load_directory (legacy_of e) c0 dj (person_files e abbr) ''person'' jurisdiction_id purge =
      Some (Inr (cp, dp)) \<and>
    load_directory (legacy_of e) cp dp (committee_files e abbr) ''organization''
      jurisdiction_id purge = Some (Inl err) \<longrightarrow>
      transaction_body e purge safe c0 d0 abbr jurisdiction_id = Some (Inl err)) \<and>
   (jurisdiction_of e abbr = Inr jurisdiction_id \<and>
    transaction_body e purge safe c0 d0 abbr jurisdiction_id = Some (Inl CancelTransaction) \<longrightarrow>
      sync_all e purge safe c0 d0 (abbr # rest) = Some (d0, SysExit 1))"
proof (intro conjI impI)
  assume H: "load_records legacy_districts c d files type jurisdiction_id =
      Some (Inr (c', d1, cls, missing_ids)) \<and>
    find_merged d1 cls missing_ids = Inr merged \<and>
    apply_merged type d1 cls merged missing_ids = Inr (d2, still_missing) \<and>
    still_missing \<noteq> []"
  have ld: "load_directory legacy_districts c d files type jurisdiction_id purge =
      Some (case purge_or_cancel d2 cls still_missing purge of
              Inl e \<Rightarrow> Inl e | Inr d3 \<Rightarrow> Inr (c', d3))" for purge
    using H by (simp add: load_directory_def)
  from H purge_or_cancel_no_purge [of still_missing d2 cls]
  show "\<exists>err. load_directory legacy_districts c d files type jurisdiction_id False =
                Some (Inl err)"
    by (auto simp: ld)
  show "load_directory legacy_districts c d files type jurisdiction_id True =
        Some (Inr (c', d2\<lparr>rows := filter (\<lambda>cr. \<not> (fst cr = cls \<and>
                (\<exists>i \<in> set still_missing. map_of (snd cr) ''id'' = Some i))) (rows d2)\<rparr>))"
    using H by (simp add: ld purge_or_cancel_purge)
  assume "\<forall>i \<in> set still_missing. length (stored_under d2 cls [(''id'', i)] [''id'']) = 1"
  with H show "load_directory legacy_districts c d files type jurisdiction_id False =
           Some (Inl CancelTransaction)"
    by (simp add: ld purge_or_cancel_cancel)
next
  assume "create_juris_orgs_posts (metadata_of e) d0 jurisdiction_id = Inr dj \<and>
    load_directory (legacy_of e) c0 dj (person_files e abbr) ''person'' jurisdiction_id purge =
      Some (Inl err)"
  then show "transaction_body e purge safe c0 d0 abbr jurisdiction_id = Some (Inl err)"
    by (simp add: transaction_body_def)
next
  assume "create_juris_orgs_posts (metadata_of e) d0 jurisdiction_id = Inr dj \<and>
    load_directory (legacy_of e) c0 dj (person_files e abbr) ''person'' jurisdiction_id purge =
      Some (Inr (cp, dp)) \<and>
    load_directory (legacy_of e) cp dp (committee_files e abbr) ''organization''
      jurisdiction_id purge = Some (Inl err)"
  then show "transaction_body e purge safe c0 d0 abbr jurisdiction_id = Some (Inl err)"
    by (simp add: transaction_body_def)
next
  assume "jurisdiction_of e abbr = Inr jurisdiction_id \<and>
    transaction_body e purge safe c0 d0 abbr jurisdiction_id = Some (Inl CancelTransaction)"
  then show "sync_all e purge safe c0 d0 (abbr # rest) = Some (d0, SysExit 1)"
    by simp
qed

lemma transaction_body_safe:
  "transaction_body e purge True c d abbr jurisdiction_id =
     (case transaction_body e purge False c d abbr jurisdiction_id of
        None \<Rightarrow> None
      | Some (Inl err) \<Rightarrow> Some (Inl err)
      | Some (Inr x) \<Rightarrow> Some (Inl CancelTransaction))"
  by (simp add: transaction_body_def split: sum.splits option.splits prod.splits)

lemma sync_all_safe:
  "abbrs \<noteq> [] \<Longrightarrow> sync_all e purge True c d abbrs = Some (d', out) \<Longrightarrow>
   d' = d \<and> exit_status out = 1"
  by (cases abbrs)
     (auto simp: transaction_body_safe split: sum.splits option.splits if_splits)

text \<open>
  Claim C7, as amended. A dry run forces the rollback with the cancellation signal and,
  like a fatal cancellation, ends the process with exit status 1: with at least one
  abbreviation to sync, a run in safe mode that ends leaves the store as
  \<^verbatim>\<open>create_parties\<close> left it and exits with status 1; and when the first abbreviation's
  block would have committed without the flag, the run ends there with \<^verbatim>\<open>sys.exit(1)\<close>.
\<close>

theorem dry_run_rolls_back_and_exits_nonzero:
  "((if abbreviations = [] then all_abbreviations e else abbreviations) \<noteq> [] \<and>
    to_database e d abbreviations purge True = Some (d', out) \<longrightarrow>
      d' = fst (create_parties d (settings_parties e)) \<and> exit_status out = 1) \<and>
   (create_parties d (settings_parties e) = (d0, None) \<and>
    (if abbreviations = [] then all_abbreviations e else abbreviations) = abbr # rest \<and>
    jurisdiction_of e abbr = Inr jurisdiction_id \<and>
    transaction_body e purge False [] d0 abbr jurisdiction_id = Some (Inr x) \<longrightarrow>
      to_database e d abbreviations purge True = Some (d0, SysExit 1))"
proof (intro conjI impI)
  assume H: "(if abbreviations = [] then all_abbreviations e else abbreviations) \<noteq> [] \<and>
    to_database e d abbreviations purge True = Some (d', out)"
  obtain d0 r where cp: "create_parties d (settings_parties e) = (d0, r)"
    by (cases "create_parties d (settings_parties e)")
  show "d' = fst (create_parties d (settings_parties e))"
  proof (cases r)
    case None
    with H cp have "sync_all e purge True [] d0
        (if abbreviations = [] then all_abbreviations e else abbreviations) = Some (d', out)"
      by (simp add: to_database_def)
    with sync_all_safe H cp show ?thesis by fastforce
  next
    case (Some err)
    with H cp show ?thesis by (simp add: to_database_def)
  qed
  show "exit_status out = 1"
  proof (cases r)
    case None
    with H cp have "sync_all e purge True [] d0
        (if abbreviations = [] then all_abbreviations e else abbreviations) = Some (d', out)"
      by (simp add: to_database_def)
    with sync_all_safe H show ?thesis by fastforce
  next
    case (Some err)
    with H cp show ?thesis by (auto simp: to_database_def)
  qed
next
  assume "create_parties d (settings_parties e) = (d0, None) \<and>
    (if abbreviations = [] then all_abbreviations e else abbreviations) = abbr # rest \<and>
    jurisdiction_of e abbr = Inr jurisdiction_id \<and>
    transaction_body e purge False [] d0 abbr jurisdiction_id = Some (Inr x)"
  then show "to_database e d abbreviations purge True = Some (d0, SysExit 1)"
    by (simp add: to_database_def transaction_body_safe)
qed

text \<open>
  The example for C10: Finance is stored and not in the batch; Budget, in the batch,
  carries Finance's id as its \<^verbatim>\<open>openstates\<close> identifier. The directory run raises
  \<^verbatim>\<open>NameError\<close>, and the command ends with it uncaught, the store unchanged.
\<close>

theorem organization_merge_witness:
  "load_directory ex_legacy [] ex_merged [ex_budget_file] ''organization'' ex_jurisdiction False =
     Some (Inl NameError) \<and>
   load_directory ex_legacy [] ex_merged [ex_budget_file] ''organization'' ex_jurisdiction True =
     Some (Inl NameError) \<and>
   to_database ex_env_merge ex_merged [''nc''] False False = Some (ex_merged, Uncaught NameError)"
proof -
  have lr: "load_records ex_legacy [] ex_merged [ex_budget_file] ''organization'' ex_jurisdiction =
      Some (Inr ([], ex_merged, Organization, [Str ''ocd-organization/finance'']))"
    by code_simp
  have fm: "find_merged ex_merged Organization [Str ''ocd-organization/finance''] =
      Inr [(Str ''ocd-organization/finance'', Str ''ocd-organization/budget'')]"
    by code_simp
  have hyp: "load_records ex_legacy [] ex_merged [ex_budget_file] ''organization'' ex_jurisdiction =
      Some (Inr ([], ex_merged, Organization, [Str ''ocd-organization/finance''])) \<and>
    find_merged ex_merged Organization [Str ''ocd-organization/finance''] =
      Inr [(Str ''ocd-organization/finance'', Str ''ocd-organization/budget'')] \<and>
    [(Str ''ocd-organization/finance'', Str ''ocd-organization/budget'')] \<noteq> []"
    using lr fm by simp
  have run: "to_database ex_env_merge ex_merged [''nc''] False False =
      Some (ex_merged, Uncaught NameError)"
    by code_simp
  from organization_merge_raises_name_error
    [of ex_legacy "[]" ex_merged "[ex_budget_file]" ex_jurisdiction "[]" ex_merged Organization
        "[Str ''ocd-organization/finance'']"
        "[(Str ''ocd-organization/finance'', Str ''ocd-organization/budget'')]" False] hyp
  have f: "load_directory ex_legacy [] ex_merged [ex_budget_file] ''organization'' ex_jurisdiction
      False = Some (Inl NameError)"
    by blast
  from organization_merge_raises_name_error
    [of ex_legacy "[]" ex_merged "[ex_budget_file]" ex_jurisdiction "[]" ex_merged Organization
        "[Str ''ocd-organization/finance'']"
        "[(Str ''ocd-organization/finance'', Str ''ocd-organization/budget'')]" True] hyp
  have t: "load_directory ex_legacy [] ex_merged [ex_budget_file] ''organization'' ex_jurisdiction
      True = Some (Inl NameError)"
    by blast
  from f t run show ?thesis by blast
qed

text \<open>
  The example for C6: Jane is stored for the jurisdiction and the batch has no person
  file. Without the purge flag the command ends with \<^verbatim>\<open>sys.exit(1)\<close> and the store
  unchanged; with it the directory run returns the store without Jane's row, her
  memberships untouched.
\<close>

theorem missing_ids_witness:
  "to_database ex_env_no_files ex_nc [''nc''] False False = Some (ex_nc, SysExit 1) \<and>
   (\<exists>d3. load_directory ex_legacy [] ex_nc_seeded [] ''person'' ex_jurisdiction True =
            Some (Inr ([], d3)) \<and>
          table d3 Person = [] \<and> table d3 Membership = table ex_nc Membership \<and>
          table d3 Organization = table ex_nc Organization)"
proof -
  let ?e = ex_env_no_files
  have seed: "create_juris_orgs_posts (metadata_of ?e) ex_nc ex_jurisdiction = Inr ex_nc_seeded"
    by code_simp
  have env: "legacy_of ?e = ex_legacy" "person_files ?e ''nc'' = []"
      "jurisdiction_of ?e ''nc'' = Inr ex_jurisdiction"
    by (simp_all add: ex_env_no_files_def ex_env_def)
  have lr: "load_records ex_legacy [] ex_nc_seeded [] ''person'' ex_jurisdiction =
      Some (Inr ([], ex_nc_seeded, Person, [Str ''p1'']))"
    by code_simp
  have fm: "find_merged ex_nc_seeded Person [Str ''p1''] = Inr []"
    by code_simp
  have am: "apply_merged ''person'' ex_nc_seeded Person [] [Str ''p1''] =
      Inr (ex_nc_seeded, [Str ''p1''])"
    by simp
  have one: "\<forall>i \<in> set [Str ''p1'']. length (stored_under ex_nc_seeded Person [(''id'', i)] [''id'']) = 1"
    by code_simp
  have hyp: "load_records ex_legacy [] ex_nc_seeded [] ''person'' ex_jurisdiction =
      Some (Inr ([], ex_nc_seeded, Person, [Str ''p1''])) \<and>
    find_merged ex_nc_seeded Person [Str ''p1''] = Inr [] \<and>
    apply_merged ''person'' ex_nc_seeded Person [] [Str ''p1''] = Inr (ex_nc_seeded, [Str ''p1'']) \<and>
    [Str ''p1''] \<noteq> []"
    using lr fm am by simp
  note th = missing_ids_cancel_or_purge
    [where legacy_districts = ex_legacy and c = "[]" and d = ex_nc_seeded and files = "[]"
       and type = "''person''" and jurisdiction_id = ex_jurisdiction and c' = "[]"
       and ?d1.0 = ex_nc_seeded and cls = Person and missing_ids = "[Str ''p1'']"
       and merged = "[]" and ?d2.0 = ex_nc_seeded and still_missing = "[Str ''p1'']"
       and e = ex_env_no_files and ?d0.0 = ex_nc and dj = ex_nc_seeded and abbr = "''nc''"
       and purge = False and err = CancelTransaction and safe = False and ?c0.0 = "[]"
       and rest = "[]"]
  from th hyp one have cancel:
    "load_directory ex_legacy [] ex_nc_seeded [] ''person'' ex_jurisdiction False =
       Some (Inl CancelTransaction)"
    by blast
  from th hyp have purge:
    "load_directory ex_legacy [] ex_nc_seeded [] ''person'' ex_jurisdiction True =
       Some (Inr ([], ex_nc_seeded\<lparr>rows := filter (\<lambda>cr. \<not> (fst cr = Person \<and>
                (\<exists>i \<in> set [Str ''p1'']. map_of (snd cr) ''id'' = Some i))) (rows ex_nc_seeded)\<rparr>))"
    by blast
  from th seed cancel env have "transaction_body ?e False False [] ex_nc ''nc'' ex_jurisdiction =
      Some (Inl CancelTransaction)"
    by simp
  with th env have sync: "sync_all ?e False False [] ex_nc [''nc''] = Some (ex_nc, SysExit 1)"
    by blast
  have parties: "create_parties ex_nc (settings_parties ?e) = (ex_nc, None)"
    by code_simp
  have run: "to_database ?e ex_nc [''nc''] False False = Some (ex_nc, SysExit 1)"
    by (simp add: to_database_def parties sync del: sync_all.simps)
  have tabs: "table (ex_nc_seeded\<lparr>rows := filter (\<lambda>cr. \<not> (fst cr = Person \<and>
                (\<exists>i \<in> set [Str ''p1'']. map_of (snd cr) ''id'' = Some i))) (rows ex_nc_seeded)\<rparr>)
              Person = []"
      "table (ex_nc_seeded\<lparr>rows := filter (\<lambda>cr. \<not> (fst cr = Person \<and>
                (\<exists>i \<in> set [Str ''p1'']. map_of (snd cr) ''id'' = Some i))) (rows ex_nc_seeded)\<rparr>)
              Membership = table ex_nc Membership"
      "table (ex_nc_seeded\<lparr>rows := filter (\<lambda>cr. \<not> (fst cr = Person \<and>
                (\<exists>i \<in> set [Str ''p1'']. map_of (snd cr) ''id'' = Some i))) (rows ex_nc_seeded)\<rparr>)
              Organization = table ex_nc Organization"
    by (simp_all add: table_def ex_nc_seeded_def ex_nc_def ex_orgs_def ex_jane_row_def
        ex_committee_membership_def)
  from run purge tabs show ?thesis by blast
qed

text \<open>
  The run that shows C7 false as stated: the example environment and the empty store.
  Without the flag the run finishes, so nothing fatal is in it; in safe mode it ends
  with \<^verbatim>\<open>sys.exit(1)\<close>.
\<close>

theorem dry_run_exit_status_counterexample:
  "to_database ex_env ex_empty [''nc''] False False = Some (ex_synced, Finished) \<and>
   to_database ex_env ex_empty [''nc''] False True = Some (ex_partied, SysExit 1) \<and>
   \<not> (\<forall>d' out. to_database ex_env ex_empty [''nc''] False True = Some (d', out) \<longrightarrow>
         exit_status out = 0)"
proof -
  have a: "to_database ex_env ex_empty [''nc''] False False = Some (ex_synced, Finished)"
    by code_simp
  have b: "to_database ex_env ex_empty [''nc''] False True = Some (ex_partied, SysExit 1)"
    by code_simp
  from b have "\<not> (\<forall>d' out. to_database ex_env ex_empty [''nc''] False True = Some (d', out) \<longrightarrow>
         exit_status out = 0)"
    by auto
  with a b show ?thesis by blast
qed

text \<open>The same run as the example for the amended C7.\<close>

theorem dry_run_witness:
  "fst (create_parties ex_empty (settings_parties ex_env)) = ex_partied \<and>
   transaction_body ex_env False False [] ex_partied ''nc'' ex_jurisdiction =
     Some (Inr ([((Organization, [(''classification'', Str ''party''), (''name'', Str ''Democratic'')]),
                  [(''name'', Str ''Democratic''), (''classification'', Str ''party''),
                   (''id'', Key 0), (''created_at'', Stamp 1), (''updated_at'', Stamp 1)])],
                ex_synced)) \<and>
   to_database ex_env ex_empty [''nc''] False True = Some (ex_partied, SysExit 1)"
proof -
  have parties: "create_parties ex_empty (settings_parties ex_env) = (ex_partied, None)"
    by code_simp
  have body: "transaction_body ex_env False False [] ex_partied ''nc'' ex_jurisdiction =
     Some (Inr ([((Organization, [(''classification'', Str ''party''), (''name'', Str ''Democratic'')]),
                  [(''name'', Str ''Democratic''), (''classification'', Str ''party''),
                   (''id'', Key 0), (''created_at'', Stamp 1), (''updated_at'', Stamp 1)])],
                ex_synced))"
    by code_simp
  have hyp: "create_parties ex_empty (settings_parties ex_env) = (ex_partied, None) \<and>
      (if [''nc''] = [] then all_abbreviations ex_env else [''nc'']) = ''nc'' # [] \<and>
      jurisdiction_of ex_env ''nc'' = Inr ex_jurisdiction \<and>
      transaction_body ex_env False False [] ex_partied ''nc'' ex_jurisdiction =
        Some (Inr ([((Organization, [(''classification'', Str ''party''), (''name'', Str ''Democratic'')]),
                  [(''name'', Str ''Democratic''), (''classification'', Str ''party''),
                   (''id'', Key 0), (''created_at'', Stamp 1), (''updated_at'', Stamp 1)])],
                ex_synced))"
    using parties body by (simp add: ex_env_def)
  from dry_run_rolls_back_and_exits_nonzero
    [of "[''nc'']" ex_env ex_empty False ex_partied "SysExit 1" ex_partied "''nc''" "[]"
        ex_jurisdiction] hyp
  have "to_database ex_env ex_empty [''nc''] False True = Some (ex_partied, SysExit 1)"
    by blast
  with parties body show ?thesis by simp
qed

section \<open>Loading what is stored\<close>

lemma set_fields_same:
  "distinct (map fst data) \<Longrightarrow> \<not> differs obj data \<Longrightarrow> set_fields obj data u = Inr (obj, u)"
proof (induction data arbitrary: u)
  case Nil
  then show ?case by simp
next
  case (Cons fv data)
  obtain f v where fv: "fv = (f, v)" by (cases fv)
  from Cons.prems fv have nf: "f \<notin> fst ` set data" and dist: "distinct (map fst data)"
    by auto
  from Cons.prems(2) fv have here: "map_of obj f = Some v"
    by (auto simp: differs_def list_ex_iff)
  have "\<not> differs obj data"
    unfolding differs_def list_ex_iff
  proof (intro notI, elim bexE)
    fix g assume g: "g \<in> set (map fst data)" and ne: "map_of obj g \<noteq> map_of data g"
    from g nf have "g \<noteq> f" by auto
    with fv have "map_of (fv # data) g = map_of data g" by simp
    with Cons.prems(2) g ne show False
      by (auto simp: differs_def list_ex_iff)
  qed
  from Cons.IH [OF dist this] here fv show ?case by simp
qed

lemma get_update_or_create_same:
  assumes "set lookup_keys \<subseteq> fst ` set data" and "distinct (map fst data)"
    and "stored_under d cls data lookup_keys = [r]" and "\<not> differs r data"
  shows "get_update_or_create d cls data lookup_keys = Inr (d, r, False, False)"
proof -
  from get_stored_under [OF assms(1), of d cls] obtain kw where
    kw: "select_keys data lookup_keys = Inr kw"
      "qs_rows d (filter_qs (objects cls) kw) = stored_under d cls data lookup_keys"
    by blast
  with assms(3) have "get d (objects cls) kw = Inr r"
    by (simp add: get_def)
  with kw(1) set_fields_same [OF assms(2,4), of False] show ?thesis
    by (simp add: get_update_or_create_def)
qed

lemma person_fields_keys:
  "person_fields data = Inr fv \<Longrightarrow>
   map fst fv = [''id'', ''name'', ''given_name'', ''family_name'', ''gender'', ''biography'',
                 ''birth_date'', ''death_date'', ''image'', ''extras'']"
  by (auto simp: person_fields_def split: sum.splits)

lemma org_fields_keys:
  "org_fields data parent = Inr fv \<Longrightarrow>
   map fst fv = [''id'', ''name'', ''jurisdiction_id'', ''classification'', ''founding_date'',
                 ''dissolution_date'', ''parent'']"
  by (auto simp: org_fields_def split: sum.splits)

lemma update_from_in_sync:
  "passed_in_sync d cls obj data fieldname \<Longrightarrow>
   update_from d cls obj data fieldname = Inr (d, False)"
  by (auto simp: passed_in_sync_def update_from_def in_sync_def update_subobjects_unchanged
      split: sum.splits)

lemma update_subobjects_in_sync:
  "in_sync d cls obj fieldname objs rm \<Longrightarrow> update_subobjects d cls obj fieldname objs rm = (d, False)"
  by (simp add: in_sync_def update_subobjects_unchanged)

lemma load_person_stored:
  assumes "person_stored legacy_districts c d data"
  shows "\<exists>c'. load_person legacy_districts c d data = Inr (c', d, False, False)"
proof -
  from assms obtain fv where fv: "person_fields data = Inr fv"
    by (cases "person_fields data") (auto simp: person_stored_def)
  from assms fv obtain person where p: "stored_under d Person fv [''id''] = [person]"
    by (cases "stored_under d Person fv [''id'']" rule: list.exhaust)
       (auto simp: person_stored_def split: list.splits)
  from assms fv p have s:
    "\<not> differs person fv"
    "passed_in_sync d Person person data ''other_names''"
    "passed_in_sync d Person person data ''links''"
    "passed_in_sync d Person person data ''sources''"
    by (simp_all add: person_stored_def)
  from assms fv p obtain ids where ids: "person_identifiers data = Inr ids"
      "in_sync d Person person ''identifiers'' ids None"
    by (cases "person_identifiers data") (auto simp: person_stored_def)
  from assms fv p obtain cds where cds: "person_contact_details data = Inr cds"
      "in_sync d Person person ''contact_details'' cds None"
    by (cases "person_contact_details data") (auto simp: person_stored_def)
  from assms fv p obtain c' ms where ms: "person_memberships legacy_districts c d data = Inr (c', ms)"
      "in_sync d Person person ''memberships'' ms (Some (non_committee person))"
    by (cases "person_memberships legacy_districts c d data") (auto simp: person_stored_def)
  have "set (map fst fv) = fst ` set fv" by simp
  with person_fields_keys [OF fv] have k1: "set [''id''] \<subseteq> fst ` set fv"
    by (metis list.set_intros(1) empty_set insert_subset empty_subsetI list.simps(15))
  have k2: "distinct (map fst fv)"
    unfolding person_fields_keys [OF fv] by simp
  note keys = k1 k2
  have g: "get_update_or_create d Person fv [''id''] = Inr (d, person, False, False)"
    by (rule get_update_or_create_same [OF keys p s(1)])
  show ?thesis
    by (simp add: load_person_def fv g update_from_in_sync s ids cds ms update_subobjects_in_sync)
qed

lemma load_org_stored:
  assumes "org_stored d data"
  shows "load_org d data = Inr (d, False, False)"
proof -
  from assms obtain parent where pa: "org_parent d data = Inr parent"
    by (cases "org_parent d data") (auto simp: org_stored_def)
  from assms pa obtain fv where fv: "org_fields data parent = Inr fv"
    by (cases "org_fields data parent") (auto simp: org_stored_def)
  from assms pa fv obtain org where p: "stored_under d Organization fv [''id''] = [org]"
    by (cases "stored_under d Organization fv [''id'']" rule: list.exhaust)
       (auto simp: org_stored_def split: list.splits)
  from assms pa fv p have s:
    "\<not> differs org fv"
    "passed_in_sync d Organization org data ''links''"
    "passed_in_sync d Organization org data ''sources''"
    by (simp_all add: org_stored_def)
  from assms pa fv p obtain roles where roles:
      "dicts_of (AttributeError ''get'') (dict_get data ''memberships'' (Seq [])) = Inr roles"
    by (cases "dicts_of (AttributeError ''get'') (dict_get data ''memberships'' (Seq []))")
       (auto simp: org_stored_def)
  from assms pa fv p roles obtain ms where ms: "org_memberships d roles = Inr ms"
      "in_sync d Organization org ''memberships'' ms None"
    by (cases "org_memberships d roles") (auto simp: org_stored_def)
  have "set (map fst fv) = fst ` set fv" by simp
  with org_fields_keys [OF fv] have k1: "set [''id''] \<subseteq> fst ` set fv"
    by (metis list.set_intros(1) empty_set insert_subset empty_subsetI list.simps(15))
  have k2: "distinct (map fst fv)"
    unfolding org_fields_keys [OF fv] by simp
  note keys = k1 k2
  have g: "get_update_or_create d Organization fv [''id''] = Inr (d, org, False, False)"
    by (rule get_update_or_create_same [OF keys p s(1)])
  show ?thesis
    by (simp add: load_org_def pa fv g update_from_in_sync s roles ms update_subobjects_in_sync)
qed

text \<open>
  Claim C1. A person record that is stored is loaded without a write: \<^verbatim>\<open>load_person\<close>
  returns the store it was given (every row and timestamp, the key counter and the clock)
  with \<open>created\<close> and \<open>updated\<close> false; so does \<^verbatim>\<open>load_org\<close> for an organization record
  that is stored. In particular \<^verbatim>\<open>update_subobjects\<close> returns false and the store it was
  given when the stored items under the read view are as many as the desired items and
  each matches one of them.
\<close>

theorem loading_what_is_stored_writes_nothing:
  "(person_stored legacy_districts c d data \<longrightarrow>
      (\<exists>c'. load_person legacy_districts c d data = Inr (c', d, False, False))) \<and>
   (org_stored d data \<longrightarrow> load_org d data = Inr (d, False, False)) \<and>
   (length (visible d cls obj fieldname rm) = length objs \<and>
    (\<forall>r \<in> set (visible d cls obj fieldname rm). \<exists>x \<in> set objs. matches r x) \<longrightarrow>
      update_subobjects d cls obj fieldname objs rm = (d, False))"
proof (intro conjI impI)
  assume "person_stored legacy_districts c d data"
  then show "\<exists>c'. load_person legacy_districts c d data = Inr (c', d, False, False)"
    by (rule load_person_stored)
next
  assume "org_stored d data"
  then show "load_org d data = Inr (d, False, False)"
    by (rule load_org_stored)
next
  assume "length (visible d cls obj fieldname rm) = length objs \<and>
    (\<forall>r \<in> set (visible d cls obj fieldname rm). \<exists>x \<in> set objs. matches r x)"
  then have "\<not> changed (visible d cls obj fieldname rm) objs"
    by (simp add: not_changed_iff)
  then show "update_subobjects d cls obj fieldname objs rm = (d, False)"
    by (rule update_subobjects_unchanged)
qed

theorem loading_what_is_stored_witness:
  "person_stored ex_legacy [] ex_nc ex_jane \<and>
   (\<exists>c'. load_person ex_legacy [] ex_nc ex_jane = Inr (c', ex_nc, False, False)) \<and>
   org_stored ex_merged (fst ex_budget_file) \<and>
   load_org ex_merged (fst ex_budget_file) = Inr (ex_merged, False, False) \<and>
   update_subobjects ex_store Person ex_person ''links''
     [[(''url'', Str ''https://example.com/jane'')], [(''url'', Str ''https://example.com/jane'')]]
     None = (ex_store, False)"
proof -
  let ?objs = "[[(''url'', Str ''https://example.com/jane'')],
                [(''url'', Str ''https://example.com/jane'')]]"
  have jane: "person_stored ex_legacy [] ex_nc ex_jane"
    by code_simp
  have budget: "org_stored ex_merged (fst ex_budget_file)"
    by code_simp
  have vis: "visible ex_store Person ex_person ''links'' None =
      [ex_link ''https://example.com/jane'' 0, ex_link ''https://example.com/jane'' 1]"
    by (simp add: visible_def read_view_def related_def all_of_def qs_rows_def table_def
        ex_store_def ex_person_def ex_link_def pk_def)
  have links: "length (visible ex_store Person ex_person ''links'' None) = length ?objs \<and>
      (\<forall>r \<in> set (visible ex_store Person ex_person ''links'' None). \<exists>x \<in> set ?objs. matches r x)"
    by (simp add: vis matches_def agrees_def ex_link_def)
  from loading_what_is_stored_writes_nothing
      [where legacy_districts = ex_legacy and c = "[]" and d = ex_nc and data = ex_jane] jane
  have one: "\<exists>c'. load_person ex_legacy [] ex_nc ex_jane = Inr (c', ex_nc, False, False)"
    by blast
  from loading_what_is_stored_writes_nothing
      [where d = ex_merged and data = "fst ex_budget_file"] budget
  have two: "load_org ex_merged (fst ex_budget_file) = Inr (ex_merged, False, False)"
    by blast
  from loading_what_is_stored_writes_nothing
      [where d = ex_store and cls = Person and obj = ex_person and fieldname = "''links''"
         and rm = None and objs = ?objs] links
  have three: "update_subobjects ex_store Person ex_person ''links'' ?objs None = (ex_store, False)"
    by blast
  from jane one budget two three show ?thesis
    by blast
qed

end
